theory Spec2Isabelle
  imports Main "HOL-Library.Sublist"
begin

section \<open>Request-log feed (ProxyMonitor.tsx)\<close>

text \<open>
  The fields of \<open>ProxyRequestLog\<close> that the reconciliation code reads or writes. The
  field \<open>id\<close> is called \<open>log_id\<close> (\<open>id\<close> is the identity function of HOL), and
  \<open>method\<close>, \<open>url\<close>, \<open>status\<close> carry the prefix \<open>log_\<close>. The optional
  presentation fields (model, tokens, account, protocol) are never inspected by the
  code modelled here and are left out. Timestamps are JavaScript numbers holding
  integral milliseconds; they are modelled as \<open>int\<close>. An optional field that is
  \<open>undefined\<close> is \<open>None\<close>.
\<close>

record ProxyRequestLog =
  log_id :: string
  timestamp :: int
  log_method :: string
  log_url :: string
  log_status :: int
  duration :: int
  request_body :: "string option"
  response_body :: "string option"

record ProxyStats =
  total_requests :: int
  success_count :: int
  error_count :: int

text \<open>
  What a rejected promise carries: an object with a \<open>message\<close> property (an \<open>Error\<close>,
  as the 10s timeout rejects with), or a value without one, given by its text (the
  native runtime rejects with the string of the command's error). A rejection with
  \<open>null\<close> or \<open>undefined\<close> is outside the model.
\<close>

datatype rejection = Error_object string | Other_value string

text \<open>
  The variables \<open>unlistenFn\<close> and \<open>pollInterval\<close> of one run of the mount effect; every
  run has its own, which its cleanup reads. A handle is the id of the listener or
  timer it stands for.
\<close>

record effect_vars =
  unlistenFn_var :: "nat option"
  pollInterval_var :: "nat option"

text \<open>
  The state of one \<open>ProxyMonitor\<close>: the React state \<open>logs\<close>, \<open>stats\<close>,
  \<open>totalCount\<close>, \<open>loading\<close>, \<open>isLoggingEnabled\<close>, the refs
  \<open>pendingLogsRef.current\<close>, \<open>listenerSetupRef.current\<close>, \<open>isMountedRef.current\<close>,
  and the lines written with \<open>console.error\<close> (the text, and the value logged with it);
  then what is suspended at an \<open>await\<close>: the number of timer callbacks that wait for
  their \<open>Promise.all\<close> (\<open>flushing\<close>) and the runs of the effect whose call of \<open>listen\<close>
  has not settled (\<open>listening\<close>); the variables of every run of the mount effect, in
  the order of the runs (\<open>effects\<close>); and the part of the browser the effect acts on:
  the ids of the listeners registered for \<open>proxy://request\<close>, the ids of the running
  interval timers, and the number of handles handed out so far.
\<close>

record monitor =
  logs :: "ProxyRequestLog list"
  stats :: ProxyStats
  totalCount :: int
  loading :: bool
  isLoggingEnabled :: bool
  pendingLogs :: "ProxyRequestLog list"
  listenerSetup :: bool
  isMounted :: bool
  console_errors :: "(string \<times> rejection option) list"
  flushing :: nat
  listening :: "nat list"
  effects :: "effect_vars list"
  event_listeners :: "nat list"
  interval_timers :: "nat list"
  handle_count :: nat

text \<open>
  The callback registered with \<open>listen('proxy://request', ...)\<close> (lines 299-319): the
  bodies are stripped, an event whose id is already pending is ignored, otherwise the
  summary is pushed onto the pending buffer (and the 500ms timer is re-armed).
\<close>

definition on_request_event :: "ProxyRequestLog \<Rightarrow> monitor \<Rightarrow> monitor" where
  "on_request_event newLog s =
     (if \<not> isMounted s then s
      else
        let logSummary = newLog\<lparr>request_body := None, response_body := None\<rparr>;
            alreadyExists = list_ex (\<lambda>l. log_id l = log_id newLog) (pendingLogs s)
        in if alreadyExists then s
           else s\<lparr>pendingLogs := pendingLogs s @ [logSummary]\<rparr>)"

text \<open>
  The updater handed to \<open>setLogs\<close> (lines 327-335). \<open>Array.prototype.sort\<close> is stable
  and the comparator \<open>b.timestamp - a.timestamp\<close> orders by timestamp descending, which
  is the stable insertion sort on the negated timestamp; \<open>slice(0, 100)\<close> keeps the
  first 100 entries.
\<close>

definition merge_pending :: "ProxyRequestLog list \<Rightarrow> ProxyRequestLog list \<Rightarrow> ProxyRequestLog list" where
  "merge_pending currentPending prev =
     (let existingIds = set (map log_id prev);
          uniqueNewLogs = filter (\<lambda>l. log_id l \<notin> existingIds) currentPending;
          merged = uniqueNewLogs @ prev
      in take 100 (sort_key (\<lambda>l. - timestamp l) merged))"

text \<open>
  The body of the 500ms timer (lines 322-353), in the two parts that the \<open>await\<close> of
  line 339 separates. \<open>flush_timeout\<close> is the part before it: the view is merged (the
  updater of \<open>setLogs\<close> works on the entries that are pending then) and the two
  backend calls are issued. \<open>flush_timeout_resume\<close> is the part after it, run when the
  \<open>Promise.all\<close> has settled; its argument is the outcome: \<open>Inl\<close> a rejection, \<open>Inr\<close>
  the pair of results (the stats may be a falsy value, \<open>None\<close>). Other callbacks can
  run between the two parts.
\<close>

definition flush_timeout :: "monitor \<Rightarrow> monitor" where
  "flush_timeout s =
     (if \<not> isMounted s then s
      else
        let currentPending = pendingLogs s
        in if length currentPending > 0 then
             s\<lparr>logs := merge_pending currentPending (logs s), flushing := Suc (flushing s)\<rparr>
           else s)"

definition flush_timeout_resume ::
  "(rejection + ProxyStats option \<times> int) \<Rightarrow> monitor \<Rightarrow> monitor" where
  "flush_timeout_resume fetched s =
     (if flushing s = 0 then s
      else
        let s1 = s\<lparr>flushing := flushing s - 1\<rparr>;
            s2 = (case fetched of
                    Inl e \<Rightarrow>
                      s1\<lparr>console_errors := console_errors s1 @ [(''Failed to fetch stats:'', Some e)]\<rparr>
                  | Inr (currentStats, count) \<Rightarrow>
                      if isMounted s1 then
                        (case currentStats of
                           Some st \<Rightarrow> s1\<lparr>stats := st\<rparr>
                         | None \<Rightarrow> s1)\<lparr>totalCount := count\<rparr>
                      else s1)
        in s2\<lparr>pendingLogs := []\<rparr>)"

text \<open>
  What the backend answers to the five calls of \<open>loadData\<close> (lines 179-248), in the
  order of the calls; \<open>Inl\<close> is a rejection (the 10s timeout included). The
  configuration is reduced to \<open>config.proxy.enable_logging\<close> (\<open>None\<close> when \<open>config\<close>
  or \<open>config.proxy\<close> is falsy), the history is \<open>None\<close> when it is not an array, the
  stats are \<open>None\<close> when falsy.
\<close>

record backend =
  load_config_result :: "rejection + bool option"
  set_enabled_result :: "rejection + unit"
  count_result :: "rejection + int"
  history_result :: "rejection + ProxyRequestLog list option"
  stats_result :: "rejection + ProxyStats option"

text \<open>
  The \<open>catch\<close> and \<open>finally\<close> blocks (lines 239-247): the error is logged, a second
  line is logged when its message is \<open>Request timeout\<close>, and loading is reset.
\<close>

definition caught :: "rejection \<Rightarrow> monitor \<Rightarrow> (rejection + unit) \<times> monitor" where
  "caught e s =
     (let s1 = s\<lparr>console_errors := console_errors s @ [(''Failed to load proxy data'', Some e)]\<rparr>;
          s2 = (if e = Error_object ''Request timeout''
                then s1\<lparr>console_errors := console_errors s1 @
                       [(''Loading monitor data timeout, please try again later'', None)]\<rparr>
                else s1)
      in (Inr (), s2\<lparr>loading := False\<rparr>))"

definition apply_config ::
  "backend \<Rightarrow> bool option \<Rightarrow> monitor \<Rightarrow> rejection \<times> monitor + monitor" where
  "apply_config b config s =
     (case config of
        None \<Rightarrow> Inr s
      | Some enable_logging \<Rightarrow>
          (case set_enabled_result b of
             Inl e \<Rightarrow> Inl (e, s\<lparr>isLoggingEnabled := enable_logging\<rparr>)
           | Inr _ \<Rightarrow> Inr (s\<lparr>isLoggingEnabled := enable_logging\<rparr>)))"

text \<open>
  \<open>loadData\<close>. Its first argument is the value of \<open>loading\<close> that the function
  reads at line 180: the state as the render that made this \<open>loadData\<close> saw it (the
  mount effect and the polling timer keep the function of the first render, which saw
  \<open>false\<close>). The first component of the result is what the caller's promise settles
  with (\<open>Inl\<close> a rejection, \<open>Inr ()\<close> fulfilment), the second the state afterwards.
  The view and the pending buffer are written together, between two \<open>await\<close>s (lines
  227-231).
\<close>

definition loadData ::
  "bool \<Rightarrow> backend \<Rightarrow> monitor \<Rightarrow> (rejection + unit) \<times> monitor" where
  "loadData loading_seen b s =
     (if loading_seen then (Inr (), s)
      else
        let s1 = s\<lparr>loading := True\<rparr> in
        (case load_config_result b of
           Inl e \<Rightarrow> caught e s1
         | Inr config \<Rightarrow>
        (case apply_config b config s1 of
           Inl (e, s2) \<Rightarrow> caught e s2
         | Inr s2 \<Rightarrow>
        (case count_result b of
           Inl e \<Rightarrow> caught e s2
         | Inr count \<Rightarrow>
        let s3 = s2\<lparr>totalCount := count\<rparr> in
        (case history_result b of
           Inl e \<Rightarrow> caught e s3
         | Inr history \<Rightarrow>
        let s4 = (case history of
                    Some h \<Rightarrow> s3\<lparr>logs := h, pendingLogs := []\<rparr>
                  | None \<Rightarrow> s3) in
        (case stats_result b of
           Inl e \<Rightarrow> caught e s4
         | Inr currentStats \<Rightarrow>
        let s5 = (case currentStats of Some st \<Rightarrow> s4\<lparr>stats := st\<rparr> | None \<Rightarrow> s4)
        in (Inr (), s5\<lparr>loading := False\<rparr>)))))))"

text \<open>
  \<open>setupListener\<close> (lines 288-355), in the two parts that its \<open>await\<close> separates. The
  first argument is \<open>isTauri()\<close>, \<open>k\<close> is the run of the effect that calls it.
  \<open>setupListener\<close> is the part before the \<open>await\<close>: the guard is tested and raised and
  \<open>listen\<close> is called. \<open>setupListener_resume\<close> is the part after it, run when the call
  of \<open>listen\<close> of run \<open>k\<close> has settled: on success the listener is registered and its
  handle is stored in the variable \<open>unlistenFn\<close> of that run; a rejection is not
  caught, and nothing else happens. Other callbacks, the cleanup among them, can run
  between the two parts.
\<close>

definition setupListener :: "bool \<Rightarrow> nat \<Rightarrow> monitor \<Rightarrow> monitor" where
  "setupListener tauri k s =
     (if \<not> tauri then s
      else if listenerSetup s then s
      else s\<lparr>listenerSetup := True, listening := listening s @ [k]\<rparr>)"

definition setupListener_resume :: "nat \<Rightarrow> (rejection + unit) \<Rightarrow> monitor \<Rightarrow> monitor" where
  "setupListener_resume k listen_result s =
     (if k \<notin> set (listening s) then s
      else
        let s1 = s\<lparr>listening := remove1 k (listening s)\<rparr>
        in (case listen_result of
              Inr _ \<Rightarrow>
                let u = Suc (handle_count s1)
                in s1\<lparr>event_listeners := event_listeners s1 @ [u], handle_count := u,
                      effects := (effects s1)[k := (effects s1 ! k)\<lparr>unlistenFn_var := Some u\<rparr>]\<rparr>
            | Inl e \<Rightarrow> s1))"

text \<open>
  The mount effect (lines 281-368) without its calls of \<open>loadData\<close> and
  \<open>fetchAccounts\<close>: a new run with variables that start as \<open>null\<close>, \<open>setupListener\<close> up
  to its \<open>await\<close>, then the polling timer of the web mode.
\<close>

definition mount_effect :: "bool \<Rightarrow> monitor \<Rightarrow> monitor" where
  "mount_effect tauri s =
     (let k = length (effects s);
          s1 = s\<lparr>isMounted := True,
                 effects := effects s @ [\<lparr>unlistenFn_var = None, pollInterval_var = None\<rparr>]\<rparr>;
          s2 = setupListener tauri k s1
      in if \<not> tauri then
           let i = Suc (handle_count s2)
           in s2\<lparr>interval_timers := interval_timers s2 @ [i], handle_count := i,
                 effects := (effects s2)[k := (effects s2 ! k)\<lparr>pollInterval_var := Some i\<rparr>]\<rparr>
         else s2)"

text \<open>
  The cleanup (lines 370-376) of the run of the effect that ran last; it reads the
  variables of that run. Before the first run there is nothing to clean up.
\<close>

definition cleanup_effect :: "monitor \<Rightarrow> monitor" where
  "cleanup_effect s =
     (if effects s = [] then s
      else
        let vars = last (effects s);
            s1 = s\<lparr>isMounted := False, listenerSetup := False\<rparr>;
            s2 = (case unlistenFn_var vars of
                    Some u \<Rightarrow> s1\<lparr>event_listeners := removeAll u (event_listeners s1)\<rparr>
                  | None \<Rightarrow> s1)
        in (case pollInterval_var vars of
              Some i \<Rightarrow>
                if i \<noteq> 0 then s2\<lparr>interval_timers := removeAll i (interval_timers s2)\<rparr> else s2
            | None \<Rightarrow> s2))"

text \<open>
  The callbacks of the request-log feed, and a step of a run; the first argument of
  \<open>monitor_step\<close> is \<open>isTauri()\<close>. \<open>Ingest\<close> is one run of the listener's callback,
  \<open>Flush\<close> the 500ms timer firing, \<open>FlushResume\<close> and \<open>Listened\<close> the continuations
  after the two \<open>await\<close>s, \<open>Reconcile\<close> a run of \<open>loadData\<close>
  (with the value of \<open>loading\<close> it reads).
\<close>

datatype monitor_op =
    Mount
  | Unmount
  | Listened nat "rejection + unit"
  | Ingest ProxyRequestLog
  | Flush
  | FlushResume "rejection + ProxyStats option \<times> int"
  | Reconcile bool backend

fun monitor_step :: "bool \<Rightarrow> monitor \<Rightarrow> monitor_op \<Rightarrow> monitor" where
  "monitor_step tauri s Mount = mount_effect tauri s"
| "monitor_step tauri s Unmount = cleanup_effect s"
| "monitor_step tauri s (Listened k r) = setupListener_resume k r s"
| "monitor_step tauri s (Ingest e) = on_request_event e s"
| "monitor_step tauri s Flush = flush_timeout s"
| "monitor_step tauri s (FlushResume r) = flush_timeout_resume r s"
| "monitor_step tauri s (Reconcile seen b) = snd (loadData seen b s)"

text \<open>The monitor before its first mount effect.\<close>

definition monitor_init :: monitor where
  "monitor_init =
     \<lparr>logs = [], stats = \<lparr>total_requests = 0, success_count = 0, error_count = 0\<rparr>,
      totalCount = 0, loading = False, isLoggingEnabled = False, pendingLogs = [],
      listenerSetup = False, isMounted = True, console_errors = [], flushing = 0,
      listening = [], effects = [], event_listeners = [], interval_timers = [],
      handle_count = 0\<rparr>"

text \<open>
  The entries of the scenario: two events with ids \<open>a\<close> and \<open>b\<close> and timestamps 100
  and 200, and \<open>summary\<close>, the entry as the listener stores it (bodies removed).
\<close>

definition entry_a :: ProxyRequestLog where
  "entry_a = \<lparr>log_id = ''a'', timestamp = 100, log_method = ''POST'', log_url = ''/v1/messages'',
     log_status = 200, duration = 12, request_body = Some ''{}'', response_body = Some ''ok''\<rparr>"

definition entry_b :: ProxyRequestLog where
  "entry_b = \<lparr>log_id = ''b'', timestamp = 200, log_method = ''POST'', log_url = ''/v1/messages'',
     log_status = 200, duration = 15, request_body = Some ''{}'', response_body = Some ''ok''\<rparr>"

definition summary :: "ProxyRequestLog \<Rightarrow> ProxyRequestLog" where
  "summary l = l\<lparr>request_body := None, response_body := None\<rparr>"

text \<open>
  How far a run of \<open>loadData\<close> gets towards the authoritative pull: \<open>pulled\<close> is the
  rejection that stops it before the history arrives, or the history (\<open>None\<close> when it
  is not an array), read off the backend's answers in the order of the calls.
\<close>

definition pulled :: "backend \<Rightarrow> rejection + ProxyRequestLog list option" where
  "pulled b =
     (case load_config_result b of
        Inl e \<Rightarrow> Inl e
      | Inr config \<Rightarrow>
          (case (case config of None \<Rightarrow> Inr () | Some _ \<Rightarrow> set_enabled_result b) of
             Inl e \<Rightarrow> Inl e
           | Inr _ \<Rightarrow>
               (case count_result b of
                  Inl e \<Rightarrow> Inl e
                | Inr _ \<Rightarrow> history_result b)))"

text \<open>
  Two backends: one whose history query times out after the count query has answered 7,
  and one that answers every query and returns the page \<open>h\<close>.
\<close>

definition failing_backend :: backend where
  "failing_backend =
     \<lparr>load_config_result = Inr None, set_enabled_result = Inr (),
      count_result = Inr 7, history_result = Inl (Error_object ''Request timeout''),
      stats_result = Inr None\<rparr>"

definition page_backend :: "ProxyRequestLog list \<Rightarrow> backend" where
  "page_backend h =
     \<lparr>load_config_result = Inr (Some True), set_enabled_result = Inr (),
      count_result = Inr (int (length h)), history_result = Inr (Some h),
      stats_result = Inr None\<rparr>"

text \<open>
  \<open>page_within n\<close> holds of an operation unless it is a pull whose page has more than
  \<open>n\<close> entries. \<open>long_page\<close> is a page of 101 entries with distinct ids, as a pull with
  page size 200 (one of \<open>PAGE_SIZE_OPTIONS\<close>) can return.
\<close>

definition page_within :: "nat \<Rightarrow> monitor_op \<Rightarrow> bool" where
  "page_within n op =
     (case op of
        Reconcile seen b \<Rightarrow>
          (case history_result b of Inr (Some h) \<Rightarrow> length h \<le> n | _ \<Rightarrow> True)
      | _ \<Rightarrow> True)"

definition long_page :: "ProxyRequestLog list" where
  "long_page = map (\<lambda>i. entry_a\<lparr>log_id := replicate i CHR ''x'', timestamp := int i\<rparr>) [0..<101]"

text \<open>
  \<open>full_page\<close> is a page of 100 entries with distinct ids and the timestamps 100 down
  to 1, newest first.
\<close>

definition full_page :: "ProxyRequestLog list" where
  "full_page =
     map (\<lambda>i. summary (entry_a\<lparr>log_id := replicate i CHR ''x'', timestamp := int i\<rparr>))
       (rev [1..<101])"


section \<open>Debug-log feed (useDebugConsole store)\<close>

datatype LogLevel = ERROR | WARN | INFO | DEBUG | TRACE

record LogEntry =
  entry_id :: int
  entry_timestamp :: int
  level :: LogLevel
  target :: string
  message :: string

text \<open>
  The store, with the part of the browser it acts on: the ids of the listeners
  registered for \<open>log-event\<close>, the ids of the running interval timers, the number of
  handles handed out so far, and the console; \<open>listening_dc\<close> is the number of calls
  of \<open>startListening\<close> that are suspended at their \<open>await\<close>. \<open>unlistenFn\<close> holds the id
  of the listener it unregisters. The store's \<open>logs\<close> is \<open>logs_dc\<close>; \<open>filter\<close>,
  \<open>searchTerm\<close> and \<open>autoScroll\<close> only steer the rendering and are left out.
\<close>

record DebugConsoleState =
  isOpen :: bool
  isEnabled :: bool
  logs_dc :: "LogEntry list"
  unlistenFn :: "nat option"
  pollInterval :: "nat option"
  listeners :: "nat list"
  timers :: "nat list"
  handles :: nat
  listening_dc :: nat
  console_dc :: "string list"

definition MAX_LOGS :: nat where
  "MAX_LOGS = 5000"

text \<open>\<open>addLog\<close> (lines 147-156); \<open>slice(-MAX_LOGS)\<close> keeps the last \<open>MAX_LOGS\<close> entries.\<close>

definition addLog :: "LogEntry \<Rightarrow> DebugConsoleState \<Rightarrow> DebugConsoleState" where
  "addLog log s =
     (let newLogs = logs_dc s @ [log]
      in if length newLogs > MAX_LOGS
         then s\<lparr>logs_dc := drop (length newLogs - MAX_LOGS) newLogs\<rparr>
         else s\<lparr>logs_dc := newLogs\<rparr>)"

text \<open>
  \<open>loadLogs\<close> (lines 118-130); its argument is the outcome of
  \<open>get_debug_console_logs\<close>. The function catches every error itself.
\<close>

definition loadLogs :: "(string + LogEntry list) \<Rightarrow> DebugConsoleState \<Rightarrow> DebugConsoleState" where
  "loadLogs r s =
     (case r of
        Inr ls \<Rightarrow> s\<lparr>logs_dc := ls\<rparr>
      | Inl e \<Rightarrow> s\<lparr>console_dc := console_dc s @ [e]\<rparr>)"

text \<open>
  A handle returned by \<open>window.setInterval\<close> is a positive integer, so it is truthy;
  \<open>null\<close> and 0 are falsy.
\<close>

definition truthy_handle :: "nat option \<Rightarrow> bool" where
  "truthy_handle h = (case h of None \<Rightarrow> False | Some n \<Rightarrow> n \<noteq> 0)"

text \<open>\<open>startPolling\<close> and \<open>stopPolling\<close> (lines 82-98).\<close>

definition startPolling :: "DebugConsoleState \<Rightarrow> DebugConsoleState" where
  "startPolling s =
     (if truthy_handle (pollInterval s) then s
      else
        let interval = Suc (handles s)
        in s\<lparr>timers := timers s @ [interval], handles := interval,
             pollInterval := Some interval\<rparr>)"

definition stopPolling :: "DebugConsoleState \<Rightarrow> DebugConsoleState" where
  "stopPolling s =
     (case pollInterval s of
        None \<Rightarrow> s
      | Some i \<Rightarrow>
          if i \<noteq> 0 then s\<lparr>timers := removeAll i (timers s), pollInterval := None\<rparr>
          else s)"

text \<open>
  \<open>startListening\<close> (lines 162-177), in the two parts that its \<open>await\<close> separates. The
  first argument is \<open>isTauri()\<close>. \<open>startListening\<close> is the part before the \<open>await\<close>:
  the runtime and the stored handle are tested and \<open>listen\<close> is called.
  \<open>startListening_resume\<close> is the part after it, run when a call of \<open>listen\<close> has
  settled: on success the listener is registered and its handle is stored, a rejection
  (\<open>Inl\<close>) is logged. Other actions can run between the two parts.
\<close>

definition startListening :: "bool \<Rightarrow> DebugConsoleState \<Rightarrow> DebugConsoleState" where
  "startListening tauri s =
     (if \<not> tauri then s
      else if unlistenFn s \<noteq> None then s
      else s\<lparr>listening_dc := Suc (listening_dc s)\<rparr>)"

definition startListening_resume :: "(string + unit) \<Rightarrow> DebugConsoleState \<Rightarrow> DebugConsoleState" where
  "startListening_resume listen_result s =
     (if listening_dc s = 0 then s
      else
        let s1 = s\<lparr>listening_dc := listening_dc s - 1\<rparr>
        in (case listen_result of
              Inr _ \<Rightarrow>
                let unlisten = Suc (handles s1)
                in s1\<lparr>listeners := listeners s1 @ [unlisten], handles := unlisten,
                      unlistenFn := Some unlisten\<rparr>
            | Inl e \<Rightarrow> s1\<lparr>console_dc := console_dc s1 @ [e]\<rparr>))"

text \<open>\<open>stopListening\<close> (lines 179-185).\<close>

definition stopListening :: "DebugConsoleState \<Rightarrow> DebugConsoleState" where
  "stopListening s =
     (case unlistenFn s of
        None \<Rightarrow> s
      | Some u \<Rightarrow> s\<lparr>listeners := removeAll u (listeners s), unlistenFn := None\<rparr>)"

text \<open>
  \<open>enable\<close>, \<open>disable\<close> and \<open>checkEnabled\<close> (lines 63-80, 100-116, 187-207), each with
  the outcomes of the backend calls it makes. \<open>enable\<close> and \<open>checkEnabled\<close> end with
  the call of \<open>startListening\<close> or \<open>startPolling\<close>; what follows the \<open>await\<close> inside
  \<open>startListening\<close> is \<open>startListening_resume\<close>.
\<close>

definition enable ::
  "bool \<Rightarrow> (string + unit) \<Rightarrow> (string + LogEntry list) \<Rightarrow>
   DebugConsoleState \<Rightarrow> DebugConsoleState" where
  "enable tauri enable_result logs_result s =
     (case enable_result of
        Inl e \<Rightarrow> s\<lparr>console_dc := console_dc s @ [e]\<rparr>
      | Inr _ \<Rightarrow>
          let s1 = s\<lparr>isEnabled := True\<rparr>;
              s2 = loadLogs logs_result s1
          in if tauri then startListening tauri s2 else startPolling s2)"

definition disable :: "bool \<Rightarrow> (string + unit) \<Rightarrow> DebugConsoleState \<Rightarrow> DebugConsoleState" where
  "disable tauri disable_result s =
     (case disable_result of
        Inl e \<Rightarrow> s\<lparr>console_dc := console_dc s @ [e]\<rparr>
      | Inr _ \<Rightarrow>
          let s1 = (if tauri then stopListening s else stopPolling s)
          in s1\<lparr>isEnabled := False\<rparr>)"

definition checkEnabled ::
  "bool \<Rightarrow> (string + bool) \<Rightarrow> (string + LogEntry list) \<Rightarrow>
   DebugConsoleState \<Rightarrow> DebugConsoleState" where
  "checkEnabled tauri enabled_result logs_result s =
     (case enabled_result of
        Inl e \<Rightarrow> s\<lparr>console_dc := console_dc s @ [e]\<rparr>
      | Inr en \<Rightarrow>
          let s1 = s\<lparr>isEnabled := en\<rparr>
          in if en then
               let s2 = loadLogs logs_result s1
               in if tauri then startListening tauri s2 else startPolling s2
             else s1)"

definition debug_init :: DebugConsoleState where
  "debug_init =
     \<lparr>isOpen = False, isEnabled = False, logs_dc = [], unlistenFn = None,
      pollInterval = None, listeners = [], timers = [], handles = 0, listening_dc = 0,
      console_dc = []\<rparr>"

text \<open>
  The actions of the store that touch the subscription or the log buffer, and
  \<open>ListenedDC\<close>, the continuation of \<open>startListening\<close> after its \<open>await\<close>.
\<close>

datatype debug_op =
    Enable "string + unit" "string + LogEntry list"
  | Disable "string + unit"
  | CheckEnabled "string + bool" "string + LogEntry list"
  | StartListening
  | ListenedDC "string + unit"
  | StopListening
  | StartPolling
  | StopPolling
  | LoadLogs "string + LogEntry list"
  | AddLog LogEntry

fun debug_step :: "bool \<Rightarrow> DebugConsoleState \<Rightarrow> debug_op \<Rightarrow> DebugConsoleState" where
  "debug_step tauri s (Enable e l) = enable tauri e l s"
| "debug_step tauri s (Disable d) = disable tauri d s"
| "debug_step tauri s (CheckEnabled c l) = checkEnabled tauri c l s"
| "debug_step tauri s StartListening = startListening tauri s"
| "debug_step tauri s (ListenedDC r) = startListening_resume r s"
| "debug_step tauri s StopListening = stopListening s"
| "debug_step tauri s StartPolling = startPolling s"
| "debug_step tauri s StopPolling = stopPolling s"
| "debug_step tauri s (LoadLogs l) = loadLogs l s"
| "debug_step tauri s (AddLog e) = addLog e s"

text \<open>
  \<open>loads_within n\<close> holds of an action unless it loads more than \<open>n\<close> entries from the
  backend.
\<close>

definition loaded_within :: "nat \<Rightarrow> (string + LogEntry list) \<Rightarrow> bool" where
  "loaded_within n r = (case r of Inr ls \<Rightarrow> length ls \<le> n | Inl _ \<Rightarrow> True)"

definition loads_within :: "nat \<Rightarrow> debug_op \<Rightarrow> bool" where
  "loads_within n op =
     (case op of
        Enable _ l \<Rightarrow> loaded_within n l
      | CheckEnabled _ l \<Rightarrow> loaded_within n l
      | LoadLogs l \<Rightarrow> loaded_within n l
      | _ \<Rightarrow> True)"

definition debug_entry :: "int \<Rightarrow> LogEntry" where
  "debug_entry i = \<lparr>entry_id = i, entry_timestamp = 1000 + i, level = INFO,
     target = ''proxy'', message = ''started''\<rparr>"


section \<open>Command dispatcher (utils/request.ts)\<close>

subsection \<open>JavaScript values and strings\<close>

text \<open>
  The values that are passed as arguments and returned as results: \<open>undefined\<close>,
  \<open>null\<close>, booleans, numbers, strings, arrays and plain objects. A number is given by
  the text that \<open>String\<close> writes for it (\<open>42\<close>, \<open>-1.5\<close>, \<open>1e+21\<close>, \<open>NaN\<close>,
  \<open>Infinity\<close>; both zeros are written \<open>0\<close>): the code modelled here does nothing with
  a number but write it and test whether it is falsy. An object is the list of its own
  enumerable properties in enumeration order; its keys are distinct. A \<open>string\<close> is the
  UTF-8 encoding of the JavaScript string.
\<close>

datatype jv =
    JUndefined
  | JNull
  | JBool bool
  | JNum string
  | JStr string
  | JArr "jv list"
  | JObj "(string \<times> jv) list"

datatype http_method = GET | POST | DELETE | PATCH

text \<open>What a rejected promise carries: an \<open>Error\<close>, a \<open>TypeError\<close>, or a thrown value.\<close>

datatype exn = JsError string | TypeError string | Thrown jv

definition hex_digit :: "nat \<Rightarrow> char" where
  "hex_digit d = ''0123456789ABCDEF'' ! (d mod 16)"

fun digits :: "nat \<Rightarrow> string" where
  "digits n = (if n < 10 then [hex_digit n] else digits (n div 10) @ [hex_digit (n mod 10)])"

declare digits.simps [simp del]

text \<open>
  \<open>String(v)\<close>: an array joins its elements with commas, \<open>null\<close> and \<open>undefined\<close>
  elements giving the empty string; a plain object gives \<open>[object Object]\<close>.
\<close>

fun js_String :: "jv \<Rightarrow> string" and js_join :: "jv list \<Rightarrow> string" where
  "js_String JUndefined = ''undefined''"
| "js_String JNull = ''null''"
| "js_String (JBool b) = (if b then ''true'' else ''false'')"
| "js_String (JNum n) = n"
| "js_String (JStr s) = s"
| "js_String (JArr xs) = js_join xs"
| "js_String (JObj kvs) = ''[object Object]''"
| "js_join [] = []"
| "js_join (x # xs) =
     (if x = JUndefined \<or> x = JNull then [] else js_String x) @
     (if xs = [] then [] else '','' @ js_join xs)"

text \<open>Truthiness, as \<open>||\<close> and \<open>if\<close> test it: of the numbers, the zeros and \<open>NaN\<close> are falsy.\<close>

fun truthy :: "jv \<Rightarrow> bool" where
  "truthy JUndefined = False"
| "truthy JNull = False"
| "truthy (JBool b) = b"
| "truthy (JNum n) = (n \<noteq> ''0'' \<and> n \<noteq> ''NaN'')"
| "truthy (JStr s) = (s \<noteq> [])"
| "truthy (JArr xs) = True"
| "truthy (JObj kvs) = True"

text \<open>
  \<open>encodeURIComponent\<close> keeps the unreserved characters and writes every other byte
  of the UTF-8 encoding as \<open>%XX\<close>.
\<close>

definition uri_unreserved :: "char \<Rightarrow> bool" where
  "uri_unreserved c =
     (c \<in> set ''ABCDEFGHIJKLMNOPQRSTUVWXYZabcdefghijklmnopqrstuvwxyz0123456789-_.!~*()''
      \<or> c = CHR 0x27)"

definition percent :: "char \<Rightarrow> string" where
  "percent c = [CHR ''%'', hex_digit (of_char c div 16), hex_digit (of_char c mod 16)]"

definition encodeURIComponent :: "string \<Rightarrow> string" where
  "encodeURIComponent s = concat (map (\<lambda>c. if uri_unreserved c then [c] else percent c) s)"

text \<open>
  \<open>URLSearchParams.prototype.toString\<close>: the form-urlencoded serialisation, which keeps
  letters, digits and \<open>*-._\<close>, writes a space as \<open>+\<close> and every other byte as \<open>%XX\<close>.
\<close>

definition form_safe :: "char \<Rightarrow> bool" where
  "form_safe c =
     (c \<in> set ''ABCDEFGHIJKLMNOPQRSTUVWXYZabcdefghijklmnopqrstuvwxyz0123456789*-._'')"

definition form_encode :: "string \<Rightarrow> string" where
  "form_encode s =
     concat (map (\<lambda>c. if c = CHR '' '' then ''+'' else if form_safe c then [c] else percent c) s)"

fun search_params_toString :: "(string \<times> string) list \<Rightarrow> string" where
  "search_params_toString [] = []"
| "search_params_toString ((k, v) # ps) =
     form_encode k @ ''='' @ form_encode v @
     (if ps = [] then [] else ''&'' @ search_params_toString ps)"

text \<open>\<open>s.includes(pat)\<close>, and \<open>s.replace(pat, rep)\<close> for a string pattern: the first
  occurrence is replaced. The replacement is always an \<open>encodeURIComponent\<close> result, which
  holds no \<open>$\<close>, so no replacement pattern is ever expanded.\<close>

fun str_includes :: "string \<Rightarrow> string \<Rightarrow> bool" where
  "str_includes pat [] = (pat = [])"
| "str_includes pat (c # cs) = (prefix pat (c # cs) \<or> str_includes pat cs)"

fun str_replace :: "string \<Rightarrow> string \<Rightarrow> string \<Rightarrow> string" where
  "str_replace pat rep [] = (if pat = [] then rep else [])"
| "str_replace pat rep (c # cs) =
     (if prefix pat (c # cs) then rep @ drop (length pat) (c # cs)
      else c # str_replace pat rep cs)"

text \<open>\<open>delete obj[key]\<close> and \<open>obj[key]\<close> (\<open>undefined\<close> when the key is absent).\<close>

definition delete_key :: "string \<Rightarrow> (string \<times> jv) list \<Rightarrow> (string \<times> jv) list" where
  "delete_key key obj = filter (\<lambda>(k, v). k \<noteq> key) obj"

definition get_property :: "(string \<times> jv) list \<Rightarrow> string \<Rightarrow> jv" where
  "get_property obj key = (case map_of obj key of Some v \<Rightarrow> v | None \<Rightarrow> JUndefined)"

subsection \<open>The command registry\<close>

text \<open>
  \<open>COMMAND_MAPPING\<close> (lines 1869-2025), in the groups of the source; a command name is
  looked up in the whole table.
\<close>

definition accounts_commands :: "(string \<times> string \<times> http_method) list" where
  "accounts_commands =
     [(''list_accounts'', ''/api/accounts'', GET),
      (''get_current_account'', ''/api/accounts/current'', GET),
      (''switch_account'', ''/api/accounts/switch'', POST),
      (''add_account'', ''/api/accounts'', POST),
      (''delete_account'', ''/api/accounts/:accountId'', DELETE),
      (''delete_accounts'', ''/api/accounts/bulk-delete'', POST),
      (''fetch_account_quota'', ''/api/accounts/:accountId/quota'', GET),
      (''refresh_account_quota'', ''/api/accounts/:accountId/quota'', GET),
      (''refresh_all_quotas'', ''/api/accounts/refresh'', POST),
      (''reorder_accounts'', ''/api/accounts/reorder'', POST),
      (''toggle_proxy_status'', ''/api/accounts/:accountId/toggle-proxy'', POST),
      (''warm_up_accounts'', ''/api/accounts/warmup'', POST),
      (''warm_up_all_accounts'', ''/api/accounts/warmup'', POST),
      (''warm_up_account'', ''/api/accounts/:accountId/warmup'', POST),
      (''update_account_label'', ''/api/accounts/:accountId/label'', POST),
      (''export_accounts'', ''/api/accounts/export'', POST),
      (''bind_device_profile'', ''/api/accounts/:accountId/bind-device'', POST),
      (''get_device_profiles'', ''/api/accounts/:accountId/device-profiles'', GET),
      (''list_device_versions'', ''/api/accounts/:accountId/device-versions'', GET),
      (''preview_generate_profile'', ''/api/accounts/device-preview'', POST),
      (''bind_device_profile_with_profile'', ''/api/accounts/:accountId/bind-device-profile'', POST),
      (''restore_original_device'', ''/api/accounts/restore-original'', POST),
      (''restore_device_version'', ''/api/accounts/:accountId/device-versions/:versionId/restore'', POST),
      (''delete_device_version'', ''/api/accounts/:accountId/device-versions/:versionId'', DELETE),
      (''open_device_folder'', ''/api/system/open-folder'', POST)]"

definition proxy_commands :: "(string \<times> string \<times> http_method) list" where
  "proxy_commands =
     [(''get_proxy_status'', ''/api/proxy/status'', GET),
      (''start_proxy_service'', ''/api/proxy/start'', POST),
      (''stop_proxy_service'', ''/api/proxy/stop'', POST),
      (''update_model_mapping'', ''/api/proxy/mapping'', POST),
      (''generate_api_key'', ''/api/proxy/api-key/generate'', POST),
      (''clear_proxy_session_bindings'', ''/api/proxy/session-bindings/clear'', POST),
      (''clear_proxy_rate_limit'', ''/api/proxy/rate-limits/:accountId'', DELETE),
      (''clear_all_proxy_rate_limits'', ''/api/proxy/rate-limits'', DELETE),
      (''check_proxy_health'', ''/api/proxy/health-check/trigger'', POST),
      (''get_preferred_account'', ''/api/proxy/preferred-account'', GET),
      (''set_preferred_account'', ''/api/proxy/preferred-account'', POST),
      (''fetch_zai_models'', ''/api/zai/models/fetch'', POST),
      (''load_config'', ''/api/config'', GET),
      (''save_config'', ''/api/config'', POST),
      (''get_proxy_stats'', ''/api/proxy/stats'', GET),
      (''set_proxy_monitor_enabled'', ''/api/proxy/monitor/toggle'', POST)]"

definition logs_commands :: "(string \<times> string \<times> http_method) list" where
  "logs_commands =
     [(''get_proxy_logs_filtered'', ''/api/logs'', GET),
      (''get_proxy_logs_count_filtered'', ''/api/logs/count'', GET),
      (''clear_proxy_logs'', ''/api/logs/clear'', POST),
      (''get_proxy_log_detail'', ''/api/logs/:logId'', GET)]"

definition debug_commands :: "(string \<times> string \<times> http_method) list" where
  "debug_commands =
     [(''enable_debug_console'', ''/api/debug/enable'', POST),
      (''disable_debug_console'', ''/api/debug/disable'', POST),
      (''is_debug_console_enabled'', ''/api/debug/enabled'', GET),
      (''get_debug_console_logs'', ''/api/debug/logs'', GET),
      (''clear_debug_console_logs'', ''/api/debug/logs/clear'', POST)]"

definition cli_sync_commands :: "(string \<times> string \<times> http_method) list" where
  "cli_sync_commands =
     [(''get_cli_sync_status'', ''/api/proxy/cli/status'', POST),
      (''execute_cli_sync'', ''/api/proxy/cli/sync'', POST),
      (''execute_cli_restore'', ''/api/proxy/cli/restore'', POST),
      (''get_cli_config_content'', ''/api/proxy/cli/config'', POST)]"

definition opencode_commands :: "(string \<times> string \<times> http_method) list" where
  "opencode_commands =
     [(''get_opencode_sync_status'', ''/api/proxy/opencode/status'', POST),
      (''execute_opencode_sync'', ''/api/proxy/opencode/sync'', POST),
      (''execute_opencode_restore'', ''/api/proxy/opencode/restore'', POST),
      (''get_opencode_config_content'', ''/api/proxy/opencode/config'', POST)]"

definition stats_commands :: "(string \<times> string \<times> http_method) list" where
  "stats_commands =
     [(''get_token_stats_hourly'', ''/api/stats/token/hourly'', GET),
      (''get_token_stats_daily'', ''/api/stats/token/daily'', GET),
      (''get_token_stats_weekly'', ''/api/stats/token/weekly'', GET),
      (''get_token_stats_by_account'', ''/api/stats/token/by-account'', GET),
      (''get_token_stats_summary'', ''/api/stats/token/summary'', GET),
      (''get_token_stats_by_model'', ''/api/stats/token/by-model'', GET),
      (''get_token_stats_model_trend_hourly'', ''/api/stats/token/model-trend/hourly'', GET),
      (''get_token_stats_model_trend_daily'', ''/api/stats/token/model-trend/daily'', GET),
      (''get_token_stats_account_trend_hourly'', ''/api/stats/token/account-trend/hourly'', GET),
      (''get_token_stats_account_trend_daily'', ''/api/stats/token/account-trend/daily'', GET),
      (''clear_token_stats'', ''/api/stats/token/clear'', POST)]"

definition system_commands :: "(string \<times> string \<times> http_method) list" where
  "system_commands =
     [(''get_data_dir_path'', ''/api/system/data-dir'', GET),
      (''get_update_settings'', ''/api/system/updates/settings'', GET),
      (''save_update_settings'', ''/api/system/updates/save'', POST),
      (''is_auto_launch_enabled'', ''/api/system/autostart/status'', GET),
      (''toggle_auto_launch'', ''/api/system/autostart/toggle'', POST),
      (''get_http_api_settings'', ''/api/system/http-api/settings'', GET),
      (''save_http_api_settings'', ''/api/system/http-api/settings'', POST),
      (''get_antigravity_path'', ''/api/system/antigravity/path'', GET),
      (''get_antigravity_args'', ''/api/system/antigravity/args'', GET)]"

definition cloudflared_commands :: "(string \<times> string \<times> http_method) list" where
  "cloudflared_commands =
     [(''cloudflared_install'', ''/api/proxy/cloudflared/install'', POST),
      (''cloudflared_start'', ''/api/proxy/cloudflared/start'', POST),
      (''cloudflared_stop'', ''/api/proxy/cloudflared/stop'', POST),
      (''cloudflared_get_status'', ''/api/proxy/cloudflared/status'', GET)]"

definition updates_commands :: "(string \<times> string \<times> http_method) list" where
  "updates_commands =
     [(''should_check_updates'', ''/api/system/updates/check-status'', GET),
      (''check_for_updates'', ''/api/system/updates/check'', POST),
      (''update_last_check_time'', ''/api/system/updates/touch'', POST)]"

definition oauth_commands :: "(string \<times> string \<times> http_method) list" where
  "oauth_commands =
     [(''prepare_oauth_url'', ''/api/auth/url'', GET),
      (''start_oauth_login'', ''/api/accounts/oauth/start'', POST),
      (''complete_oauth_login'', ''/api/accounts/oauth/complete'', POST),
      (''cancel_oauth_login'', ''/api/accounts/oauth/cancel'', POST),
      (''submit_oauth_code'', ''/api/accounts/oauth/submit-code'', POST)]"

definition import_commands :: "(string \<times> string \<times> http_method) list" where
  "import_commands =
     [(''import_v1_accounts'', ''/api/accounts/import/v1'', POST),
      (''import_from_db'', ''/api/accounts/import/db'', POST),
      (''import_custom_db'', ''/api/accounts/import/db-custom'', POST),
      (''sync_account_from_db'', ''/api/accounts/sync/db'', POST)]"

definition cache_commands :: "(string \<times> string \<times> http_method) list" where
  "cache_commands =
     [(''open_data_folder'', ''/api/system/open-folder'', POST),
      (''clear_antigravity_cache'', ''/api/system/cache/clear'', POST),
      (''get_antigravity_cache_paths'', ''/api/system/cache/paths'', GET),
      (''clear_log_cache'', ''/api/system/logs/clear-cache'', POST)]"

definition security_commands :: "(string \<times> string \<times> http_method) list" where
  "security_commands =
     [(''get_ip_access_logs'', ''/api/security/logs'', GET),
      (''clear_ip_access_logs'', ''/api/security/logs/clear'', POST),
      (''get_ip_stats'', ''/api/security/stats'', GET),
      (''get_ip_token_stats'', ''/api/security/token-stats'', GET),
      (''get_ip_blacklist'', ''/api/security/blacklist'', GET),
      (''add_ip_to_blacklist'', ''/api/security/blacklist'', POST),
      (''remove_ip_from_blacklist'', ''/api/security/blacklist'', DELETE),
      (''clear_ip_blacklist'', ''/api/security/blacklist/clear'', POST),
      (''check_ip_in_blacklist'', ''/api/security/blacklist/check'', GET),
      (''get_ip_whitelist'', ''/api/security/whitelist'', GET),
      (''add_ip_to_whitelist'', ''/api/security/whitelist'', POST),
      (''remove_ip_from_whitelist'', ''/api/security/whitelist'', DELETE),
      (''clear_ip_whitelist'', ''/api/security/whitelist/clear'', POST),
      (''check_ip_in_whitelist'', ''/api/security/whitelist/check'', GET),
      (''get_security_config'', ''/api/security/config'', GET),
      (''update_security_config'', ''/api/security/config'', POST)]"

definition user_token_commands :: "(string \<times> string \<times> http_method) list" where
  "user_token_commands =
     [(''list_user_tokens'', ''/api/user-tokens'', GET),
      (''get_user_token_summary'', ''/api/user-tokens/summary'', GET),
      (''create_user_token'', ''/api/user-tokens'', POST),
      (''renew_user_token'', ''/api/user-tokens/:id/renew'', POST),
      (''delete_user_token'', ''/api/user-tokens/:id'', DELETE),
      (''update_user_token'', ''/api/user-tokens/:id'', PATCH)]"

definition proxy_pool_commands :: "(string \<times> string \<times> http_method) list" where
  "proxy_pool_commands =
     [(''get_proxy_pool_config'', ''/api/proxy/pool/config'', GET),
      (''get_all_account_bindings'', ''/api/proxy/pool/bindings'', GET),
      (''bind_account_proxy'', ''/api/proxy/pool/bind'', POST),
      (''unbind_account_proxy'', ''/api/proxy/pool/unbind'', POST),
      (''get_account_proxy_binding'', ''/api/proxy/pool/binding/:accountId'', GET)]"

definition COMMAND_MAPPING_entries :: "(string \<times> string \<times> http_method) list" where
  "COMMAND_MAPPING_entries =
     accounts_commands @
     proxy_commands @
     logs_commands @
     debug_commands @
     cli_sync_commands @
     opencode_commands @
     stats_commands @
     system_commands @
     cloudflared_commands @
     updates_commands @
     oauth_commands @
     import_commands @
     cache_commands @
     security_commands @
     user_token_commands @
     proxy_pool_commands"

definition COMMAND_MAPPING :: "string \<Rightarrow> (string \<times> http_method) option" where
  "COMMAND_MAPPING = map_of COMMAND_MAPPING_entries"

subsection \<open>The browser and the login guard (AdminAuthGuard)\<close>

record request_init =
  req_method :: http_method
  req_headers :: "(string \<times> string) list"
  req_body :: "jv option"

record response =
  resp_status :: nat
  resp_text :: string

text \<open>
  The part of the browser the dispatcher and the login guard act on: the key
  \<open>abv_admin_api_key\<close> of the session storage and of the local storage,
  \<open>window._lastAuthErrorTime\<close>, whether \<open>handleUnauthorized\<close> is registered for
  \<open>abv-unauthorized\<close>, how many such events have been dispatched, the guard's state
  \<open>isAuthenticated\<close>, and the calls of \<open>fetch\<close> in order. \<open>req_body\<close> is the value
  handed to \<open>JSON.stringify\<close>.
\<close>

record browser =
  sessionKey :: "string option"
  localKey :: "string option"
  lastAuthErrorTime :: "int option"
  unauthorized_listener :: bool
  dispatched :: nat
  isAuthenticated :: bool
  fetched :: "(string \<times> request_init) list"

definition truthy_key :: "string option \<Rightarrow> bool" where
  "truthy_key k = (case k of None \<Rightarrow> False | Some s \<Rightarrow> s \<noteq> [])"

text \<open>
  The effect of \<open>AdminAuthGuard\<close> at mount (NavLogo.tsx, lines 38-68), with
  \<open>isTauri()\<close> as its first argument: with a key in the session storage it returns
  before the listener is registered.
\<close>

definition guard_mount :: "bool \<Rightarrow> browser \<Rightarrow> browser" where
  "guard_mount tauri w =
     (if tauri then w
      else if truthy_key (sessionKey w) then w\<lparr>isAuthenticated := True\<rparr>
      else
        let w1 = (if truthy_key (localKey w)
                  then w\<lparr>sessionKey := localKey w, localKey := None, isAuthenticated := True\<rparr>
                  else w)
        in w1\<lparr>unauthorized_listener := True\<rparr>)"

definition handleUnauthorized :: "browser \<Rightarrow> browser" where
  "handleUnauthorized w = w\<lparr>sessionKey := None, localKey := None, isAuthenticated := False\<rparr>"

text \<open>\<open>window.dispatchEvent(new CustomEvent('abv-unauthorized'))\<close> runs the registered
  listener synchronously.\<close>

definition dispatch_unauthorized :: "browser \<Rightarrow> browser" where
  "dispatch_unauthorized w =
     (let w1 = w\<lparr>dispatched := Suc (dispatched w)\<rparr>
      in if unauthorized_listener w1 then handleUnauthorized w1 else w1)"

text \<open>The 401 branch of \<open>request\<close> (lines 2097-2105), at time \<open>now = Date.now()\<close>.\<close>

definition notify_unauthorized :: "int \<Rightarrow> browser \<Rightarrow> browser" where
  "notify_unauthorized now w =
     (let lastAuthError = (case lastAuthErrorTime w of None \<Rightarrow> 0 | Some t \<Rightarrow> t)
      in if now - lastAuthError > 2000
         then dispatch_unauthorized (w\<lparr>lastAuthErrorTime := Some now\<rparr>)
         else w)"

subsection \<open>The function \<open>request\<close>\<close>

text \<open>
  The loop over \<open>Object.keys(args)\<close> (lines 2051-2062): the state is the URL and
  \<open>bodyArgs\<close>.
\<close>

fun substitute_path ::
  "(string \<times> jv) list \<Rightarrow> string \<times> (string \<times> jv) list \<Rightarrow> string \<times> (string \<times> jv) list" where
  "substitute_path [] (url, bodyArgs) = (url, bodyArgs)"
| "substitute_path ((key, v) # rest) (url, bodyArgs) =
     (let placeholder = '':'' @ key
      in if str_includes placeholder url
         then substitute_path rest
                (str_replace placeholder (encodeURIComponent (js_String v)) url,
                 delete_key key bodyArgs)
         else substitute_path rest (url, bodyArgs))"

text \<open>The parameters appended to \<open>params\<close> (lines 2079-2085), against the resolved path.\<close>

definition query_params :: "(string \<times> jv) list \<Rightarrow> string \<Rightarrow> (string \<times> string) list" where
  "query_params args url =
     map (\<lambda>(key, v). (key, js_String v))
       (filter (\<lambda>(key, v). \<not> str_includes (encodeURIComponent (js_String v)) url \<and>
                            v \<noteq> JUndefined \<and> v \<noteq> JNull) args)"

text \<open>The body of a POST or PATCH (line 2090).\<close>

definition body_of :: "(string \<times> jv) list \<Rightarrow> jv" where
  "body_of bodyArgs =
     (if get_property bodyArgs ''request'' \<noteq> JUndefined
      then get_property bodyArgs ''request'' else JObj bodyArgs)"

definition auth_headers :: "string option \<Rightarrow> (string \<times> string) list" where
  "auth_headers apiKey =
     (''Content-Type'', ''application/json'') #
     (case apiKey of
        Some k \<Rightarrow>
          if k \<noteq> [] then [(''Authorization'', ''Bearer '' @ k), (''x-api-key'', k)] else []
      | None \<Rightarrow> [])"

text \<open>
  The URL and the options of the \<open>fetch\<close> call (lines 2046-2092), for a mapped
  command: the template, the method, the arguments (\<open>None\<close> when the caller passes
  none) and the stored key.
\<close>

definition build_request ::
  "string \<Rightarrow> http_method \<Rightarrow> (string \<times> jv) list option \<Rightarrow> string option \<Rightarrow> string \<times> request_init" where
  "build_request template m args apiKey =
     (let (url, bodyArgs) =
            (case args of
               None \<Rightarrow> (template, None)
             | Some a \<Rightarrow> (let (u, b) = substitute_path a (template, a) in (u, Some b)));
          options = \<lparr>req_method = m, req_headers = auth_headers apiKey, req_body = None\<rparr>
      in if (m = GET \<or> m = DELETE) \<and> args \<noteq> None then
           (let qs = search_params_toString (query_params (the args) url)
            in (if qs \<noteq> [] then url @ ''?'' @ qs else url, options))
         else if (m = POST \<or> m = PATCH) \<and> bodyArgs \<noteq> None then
           (url, options\<lparr>req_body := Some (body_of (the bodyArgs))\<rparr>)
         else (url, options))"

text \<open>
  What the runtime supplies to one call: \<open>isTauri\<close>, the outcome of the native
  \<open>invoke\<close>, the outcome of \<open>fetch\<close> (\<open>Inl\<close> a network failure), \<open>Date.now()\<close>, and
  \<open>JSON.parse\<close> (\<open>None\<close> where it throws).
\<close>

record runtime =
  isTauri :: bool
  invoke_result :: "exn + jv"
  fetch_result :: "exn + response"
  now :: int
  json_parse :: "string \<Rightarrow> jv option"

text \<open>\<open>errorData.error\<close>: reading a property of \<open>null\<close> or \<open>undefined\<close> throws a
  \<open>TypeError\<close>; a string, number, boolean or array has no property \<open>error\<close>.\<close>

definition error_property :: "jv \<Rightarrow> exn + jv" where
  "error_property errorData =
     (case errorData of
        JNull \<Rightarrow> Inl (TypeError ''Cannot read properties of null'')
      | JUndefined \<Rightarrow> Inl (TypeError ''Cannot read properties of undefined'')
      | JObj kvs \<Rightarrow> Inr (get_property kvs ''error'')
      | _ \<Rightarrow> Inr JUndefined)"

text \<open>The classification of the response (lines 2096-2125).\<close>

definition classify_response :: "runtime \<Rightarrow> response \<Rightarrow> browser \<Rightarrow> (exn + jv) \<times> browser" where
  "classify_response rt resp w =
     (if \<not> (200 \<le> resp_status resp \<and> resp_status resp \<le> 299) then
        let w1 = (if \<not> isTauri rt \<and> resp_status resp = 401
                  then notify_unauthorized (now rt) w else w);
            errorData = (case json_parse rt (resp_text resp) of
                           Some v \<Rightarrow> v
                         | None \<Rightarrow> JObj [])
        in (case error_property errorData of
              Inl e \<Rightarrow> (Inl e, w1)
            | Inr err \<Rightarrow>
                (Inl (Thrown (if truthy err then err
                              else JStr (''HTTP Error '' @ digits (resp_status resp)))), w1))
      else if resp_status resp = 204 then (Inr JNull, w)
      else
        let text = resp_text resp
        in if text = [] then (Inr JNull, w)
           else (case json_parse rt text of
                   Some v \<Rightarrow> (Inr v, w)
                 | None \<Rightarrow> (Inr (JStr text), w)))"

text \<open>
  \<open>COMMAND_MAPPING[cmd]\<close> (line 2040). The registry is an object literal, so a name
  that is not one of its own keys is looked up on \<open>Object.prototype\<close>: for the names
  below the result is an inherited function (for \<open>__proto__\<close> the prototype object),
  which is truthy and has neither \<open>url\<close> nor \<open>method\<close>; for every other name it is
  \<open>undefined\<close>.
\<close>

definition Object_prototype_names :: "string list" where
  "Object_prototype_names =
     [''constructor'', ''__proto__'', ''hasOwnProperty'', ''isPrototypeOf'',
      ''propertyIsEnumerable'', ''toLocaleString'', ''toString'', ''valueOf'',
      ''__defineGetter__'', ''__defineSetter__'', ''__lookupGetter__'', ''__lookupSetter__'']"

datatype mapping_lookup = Mapped string http_method | Inherited | Unmapped

definition lookup_mapping ::
  "(string \<Rightarrow> (string \<times> http_method) option) \<Rightarrow> string \<Rightarrow> mapping_lookup" where
  "lookup_mapping registry cmd =
     (case registry cmd of
        Some (template, m) \<Rightarrow> Mapped template m
      | None \<Rightarrow> if cmd \<in> set Object_prototype_names then Inherited else Unmapped)"

text \<open>The \<open>fetch\<close> call and what follows it (lines 2094-2129).\<close>

definition perform_fetch ::
  "runtime \<Rightarrow> string \<times> request_init \<Rightarrow> browser \<Rightarrow> (exn + jv) \<times> browser" where
  "perform_fetch rt call w =
     (let w1 = w\<lparr>fetched := fetched w @ [call]\<rparr>
      in (case fetch_result rt of
            Inl e \<Rightarrow> (Inl e, w1)
          | Inr resp \<Rightarrow> classify_response rt resp w1))"

text \<open>
  \<open>request\<close> (lines 2027-2130), with the registry as its second argument: the result
  is what the promise settles with (\<open>Inl\<close> a rejection) and the browser afterwards.
  With an inherited value for \<open>mapping\<close>, \<open>url\<close> and \<open>mapping.method\<close> are
  \<open>undefined\<close>: the loop over the keys of \<open>args\<close> throws at \<open>url.includes\<close> as soon as
  there is a key; without a key the code reaches \<open>fetch(undefined, options)\<close>, which
  requests the relative URL \<open>undefined\<close> with the default method GET.
\<close>

definition request ::
  "runtime \<Rightarrow> (string \<Rightarrow> (string \<times> http_method) option) \<Rightarrow> string \<Rightarrow>
   (string \<times> jv) list option \<Rightarrow> browser \<Rightarrow> (exn + jv) \<times> browser" where
  "request rt registry cmd args w =
     (if isTauri rt then (invoke_result rt, w)
      else
        (case lookup_mapping registry cmd of
           Unmapped \<Rightarrow>
             (Inl (JsError (''Command ['' @ cmd @ ''] not supported in Web mode.'')), w)
         | Inherited \<Rightarrow>
             (case args of
                Some (kv # rest) \<Rightarrow> (Inl (TypeError ''Cannot read properties of undefined''), w)
              | _ \<Rightarrow>
                  perform_fetch rt
                    (''undefined'',
                     \<lparr>req_method = GET, req_headers = auth_headers (sessionKey w),
                      req_body = None\<rparr>) w)
         | Mapped template m \<Rightarrow>
             perform_fetch rt (build_request template m args (sessionKey w)) w))"

subsection \<open>Path templates as the specification reads them\<close>

text \<open>
  A template as a sequence of literal text and \<open>:key\<close> tokens, and the string it stands
  for. A template is well formed when no literal holds a colon, every token name
  consists of letters, digits and underscores, and every token is followed by the end of
  the template or by a literal that starts with another character.
\<close>

datatype segment = Lit string | Tok string

fun render :: "segment list \<Rightarrow> string" where
  "render [] = []"
| "render (Lit s # segs) = s @ render segs"
| "render (Tok t # segs) = CHR '':'' # t @ render segs"

fun tokens :: "segment list \<Rightarrow> string list" where
  "tokens [] = []"
| "tokens (Lit s # segs) = tokens segs"
| "tokens (Tok t # segs) = t # tokens segs"

definition ident_char :: "char \<Rightarrow> bool" where
  "ident_char c =
     (c \<in> set ''ABCDEFGHIJKLMNOPQRSTUVWXYZabcdefghijklmnopqrstuvwxyz0123456789_'')"

fun delimited :: "segment list \<Rightarrow> bool" where
  "delimited [] = True"
| "delimited (Lit (c # s) # segs) = (\<not> ident_char c)"
| "delimited segs = False"

fun wf_template :: "segment list \<Rightarrow> bool" where
  "wf_template [] = True"
| "wf_template (Lit s # segs) = (CHR '':'' \<notin> set s \<and> wf_template segs)"
| "wf_template (Tok t # segs) = (list_all ident_char t \<and> delimited segs \<and> wf_template segs)"

text \<open>
  Reading a template: text up to a colon is a literal, a colon starts a token whose name
  is the longest run of identifier characters after it. A template is in order when
  reading it gives well-formed segments with pairwise distinct tokens that stand for
  the template again.
\<close>

function parse_template :: "string \<Rightarrow> segment list" where
  "parse_template [] = []"
| "parse_template (c # cs) =
     (if c = CHR '':''
      then Tok (takeWhile ident_char cs) # parse_template (dropWhile ident_char cs)
      else Lit (c # takeWhile (\<lambda>x. x \<noteq> CHR '':'') cs) #
           parse_template (dropWhile (\<lambda>x. x \<noteq> CHR '':'') cs))"
  by pat_completeness auto
termination
  by (relation "measure length") (auto simp: length_dropWhile_le less_Suc_eq_le)

definition template_ok :: "string \<Rightarrow> bool" where
  "template_ok template =
     (let segs = parse_template template
      in render segs = template \<and> wf_template segs \<and> distinct (tokens segs))"

text \<open>
  The path the specification asks for: every token for which the arguments hold a
  value is replaced by the URL-encoded value; a token without a value stays.
\<close>

fun resolve :: "(string \<times> jv) list \<Rightarrow> segment \<Rightarrow> segment" where
  "resolve args (Lit s) = Lit s"
| "resolve args (Tok t) =
     (case map_of args t of
        Some v \<Rightarrow> Lit (encodeURIComponent (js_String v))
      | None \<Rightarrow> Tok t)"

definition resolved_path :: "(string \<times> jv) list \<Rightarrow> segment list \<Rightarrow> string" where
  "resolved_path args segs = render (map (resolve args) segs)"

text \<open>
  The arguments fit a template when their keys are distinct identifiers, every token has
  a key, and no key is a proper prefix of a token name.
\<close>

definition args_fit :: "(string \<times> jv) list \<Rightarrow> segment list \<Rightarrow> bool" where
  "args_fit args segs =
     (distinct (map fst args) \<and>
      list_all (\<lambda>k. list_all ident_char k \<and>
                     list_all (\<lambda>t. prefix k t \<longrightarrow> k = t) (tokens segs)) (map fst args) \<and>
      list_all (\<lambda>t. t \<in> set (map fst args)) (tokens segs))"

subsection \<open>Auxiliary definitions\<close>

text \<open>
  \<open>subst_seg k r\<close> replaces the first token \<open>k\<close> of a template by the literal \<open>r\<close>: what
  one round of the substitution loop does to a well-formed template.
\<close>

fun subst_seg :: "string \<Rightarrow> string \<Rightarrow> segment list \<Rightarrow> segment list" where
  "subst_seg k r [] = []"
| "subst_seg k r (Lit s # segs) = Lit s # subst_seg k r segs"
| "subst_seg k r (Tok t # segs) = (if t = k then Lit r # segs else Tok t # subst_seg k r segs)"

text \<open>
  A web runtime that answers the \<open>fetch\<close> call with \<open>f\<close>; its \<open>JSON.parse\<close> is given
  on the texts used below (\<open>null\<close> parses to \<open>null\<close>, the empty text does not parse). A
  browser with the stored key \<open>key\<close>, no listener and no request made yet. The registry of
  the scenario, with the single command \<open>getThing\<close>.
\<close>

definition web_runtime :: "(exn + response) \<Rightarrow> runtime" where
  "web_runtime f =
     \<lparr>isTauri = False, invoke_result = Inr JNull, fetch_result = f, now = 1700000000000,
      json_parse = (\<lambda>s. if s = ''null'' then Some JNull else None)\<rparr>"

definition fresh_browser :: "string option \<Rightarrow> browser" where
  "fresh_browser key =
     \<lparr>sessionKey = key, localKey = None, lastAuthErrorTime = None,
      unauthorized_listener = False, dispatched = 0, isAuthenticated = False, fetched = []\<rparr>"

definition thing_registry :: "string \<Rightarrow> (string \<times> http_method) option" where
  "thing_registry = map_of [(''getThing'', (''/api/things/:id'', GET))]"

definition ok_response :: response where
  "ok_response = \<lparr>resp_status = 200, resp_text = ''''\<rparr>"

definition page_response :: response where
  "page_response = \<lparr>resp_status = 200, resp_text = ''<!doctype html>''\<rparr>"

definition error_response :: "nat \<Rightarrow> string \<Rightarrow> response" where
  "error_response st body = \<lparr>resp_status = st, resp_text = body\<rparr>"

section \<open>Properties of the debug-log feed\<close>

lemma drop_within: "n \<le> length xs \<Longrightarrow> drop n xs @ ys = drop n (xs @ ys)"
  by simp

lemma addLog_logs:
  "logs_dc (addLog e s) = drop (length (logs_dc s) + 1 - MAX_LOGS) (logs_dc s @ [e])"
  by (simp add: addLog_def Let_def)

lemma addLog_run:
  "es \<noteq> [] \<Longrightarrow>
   logs_dc (foldl (debug_step tauri) s (map AddLog es)) =
     drop (length (logs_dc s) + length es - MAX_LOGS) (logs_dc s @ es)"
proof (induction es rule: rev_induct)
  case Nil
  then show ?case by simp
next
  case (snoc e es)
  show ?case
  proof (cases "es = []")
    case True
    then show ?thesis by (simp add: addLog_logs)
  next
    case False
    let ?j = "length (logs_dc s) + length es - MAX_LOGS"
    let ?r = "foldl (debug_step tauri) s (map AddLog es)"
    have r: "logs_dc ?r = drop ?j (logs_dc s @ es)"
      using False by (rule snoc.IH)
    have j: "?j \<le> length (logs_dc s @ es)"
      by simp
    have "logs_dc (addLog e ?r) =
          drop (length (logs_dc ?r) + 1 - MAX_LOGS) (drop ?j (logs_dc s @ es) @ [e])"
      unfolding addLog_logs r ..
    also have "drop ?j (logs_dc s @ es) @ [e] = drop ?j ((logs_dc s @ es) @ [e])"
      using j by (rule drop_within)
    also have "drop (length (logs_dc ?r) + 1 - MAX_LOGS) (drop ?j ((logs_dc s @ es) @ [e])) =
          drop (length (logs_dc ?r) + 1 - MAX_LOGS + ?j) ((logs_dc s @ es) @ [e])"
      by (rule drop_drop)
    also have "length (logs_dc ?r) + 1 - MAX_LOGS + ?j =
          length (logs_dc s) + length (es @ [e]) - MAX_LOGS"
      unfolding r by (simp add: MAX_LOGS_def)
    finally show ?thesis by (simp del: drop_append)
  qed
qed

text \<open>
  C10. \<open>addLog\<close> appends: after one entry, and after any entries \<open>e # es\<close>, have been
  pushed, whatever their ids and timestamps, the view is the old view followed by the
  pushed entries in the order of arrival, without its first entries where that is longer
  than \<open>MAX_LOGS\<close>. No entry is left out for its id and none is moved for its timestamp.
\<close>

theorem addLog_no_dedup:
  "logs_dc (addLog e s) = drop (length (logs_dc s) + 1 - MAX_LOGS) (logs_dc s @ [e]) \<and>
   logs_dc (foldl (debug_step tauri) s (map AddLog (e # es))) =
     drop (length (logs_dc s) + length (e # es) - MAX_LOGS) (logs_dc s @ e # es)"
proof -
  have "e # es \<noteq> []"
    by simp
  then have "logs_dc (foldl (debug_step tauri) s (map AddLog (e # es))) =
     drop (length (logs_dc s) + length (e # es) - MAX_LOGS) (logs_dc s @ e # es)"
    by (rule addLog_run)
  then show ?thesis
    using addLog_logs by blast
qed

text \<open>Three pushes, the third with the id and timestamp of the first: all three stay.\<close>

lemma addLog_same_id:
  "logs_dc (foldl (debug_step True) debug_init
      [AddLog (debug_entry 7), AddLog (debug_entry 8), AddLog (debug_entry 7)]) =
   [debug_entry 7, debug_entry 8, debug_entry 7]"
  by (simp add: addLog_def debug_init_def MAX_LOGS_def)

lemma addLog_length: "length (logs_dc (addLog e s)) \<le> MAX_LOGS"
  by (simp add: addLog_def Let_def MAX_LOGS_def)

lemma debug_step_length:
  assumes "loads_within MAX_LOGS op" and "length (logs_dc s) \<le> MAX_LOGS"
  shows "length (logs_dc (debug_step tauri s op)) \<le> MAX_LOGS"
  using assms
  by (cases op)
     (auto simp: loads_within_def loaded_within_def enable_def disable_def checkEnabled_def
        startListening_def startListening_resume_def stopListening_def startPolling_def
        stopPolling_def loadLogs_def addLog_length Let_def
      split: sum.splits option.splits)

lemma debug_run_length:
  "list_all (loads_within MAX_LOGS) ops \<Longrightarrow> length (logs_dc s) \<le> MAX_LOGS \<Longrightarrow>
   length (logs_dc (foldl (debug_step tauri) s ops)) \<le> MAX_LOGS"
  by (induction ops arbitrary: s) (simp_all add: debug_step_length)

section \<open>Properties of the request-log feed\<close>

lemma merge_pending_sorted:
  "sorted_wrt (\<lambda>a b. timestamp b \<le> timestamp a) (merge_pending p v)"
proof -
  let ?m = "sort_key (\<lambda>l. - timestamp l) (filter (\<lambda>l. log_id l \<notin> set (map log_id v)) p @ v)"
  have "sorted (map (\<lambda>l. - timestamp l) ?m)"
    by (rule sorted_sort_key)
  then have "sorted_wrt (\<lambda>a b. timestamp b \<le> timestamp a) ?m"
    by (simp add: sorted_map)
  then have "sorted_wrt (\<lambda>a b. timestamp b \<le> timestamp a) (take 100 ?m)"
    by (rule sorted_wrt_take)
  then show ?thesis
    by (simp add: merge_pending_def Let_def)
qed

lemma merge_pending_length: "length (merge_pending p v) \<le> 100"
  by (simp add: merge_pending_def Let_def)

lemma merge_pending_evicts_oldest:
  assumes "kept \<in> set (merge_pending p v)"
    and "dropped \<in> set (drop 100 (sort_key (\<lambda>l. - timestamp l) (filter (\<lambda>l. log_id l \<notin> set (map log_id v)) p @ v)))"
  shows "timestamp dropped \<le> timestamp kept"
proof -
  let ?m = "sort_key (\<lambda>l. - timestamp l) (filter (\<lambda>l. log_id l \<notin> set (map log_id v)) p @ v)"
  have "sorted (map (\<lambda>l. - timestamp l) ?m)"
    by (rule sorted_sort_key)
  then have "sorted_wrt (\<lambda>a b. timestamp b \<le> timestamp a) (take 100 ?m @ drop 100 ?m)"
    by (simp add: sorted_map)
  moreover have "kept \<in> set (take 100 ?m)"
    using assms(1) by (simp add: merge_pending_def Let_def)
  ultimately show ?thesis
    using assms(2) unfolding sorted_wrt_append by blast
qed

lemma merge_pending_distinct:
  assumes "distinct (map log_id v)" and "distinct (map log_id p)"
  shows "distinct (map log_id (merge_pending p v))"
proof -
  let ?new = "filter (\<lambda>l. log_id l \<notin> set (map log_id v)) p"
  let ?m = "sort_key (\<lambda>l. - timestamp l) (?new @ v)"
  have "distinct (map log_id ?new)"
    using assms(2) by (rule distinct_map_filter)
  then have "distinct (map log_id (?new @ v))"
    using assms(1) by auto
  moreover have "distinct (map log_id ?m) = distinct (map log_id (?new @ v))"
    by (simp only: distinct_map distinct_sort set_sort)
  ultimately have "distinct (map log_id ?m)"
    by blast
  then have "distinct (take 100 (map log_id ?m))"
    by (rule distinct_take)
  then show ?thesis
    by (simp add: merge_pending_def Let_def take_map)
qed

lemma merge_pending_set:
  "set (merge_pending p v) \<subseteq> set v \<union> {l \<in> set p. log_id l \<notin> log_id ` set v}"
proof -
  have "set (merge_pending p v) \<subseteq> set (sort_key (\<lambda>l. - timestamp l) (filter (\<lambda>l. log_id l \<notin> set (map log_id v)) p @ v))"
    unfolding merge_pending_def Let_def by (rule set_take_subset)
  then show ?thesis by auto
qed

lemma on_request_event_frame:
  "logs (on_request_event e s) = logs s \<and> isMounted (on_request_event e s) = isMounted s"
  by (simp add: on_request_event_def Let_def)

lemma on_request_event_pending:
  "isMounted s \<Longrightarrow> pendingLogs (on_request_event e s) \<noteq> []"
  by (auto simp: on_request_event_def Let_def list_ex_iff)

lemma on_request_event_distinct:
  "distinct (map log_id (pendingLogs s)) \<Longrightarrow> distinct (map log_id (pendingLogs (on_request_event e s)))"
  by (auto simp: on_request_event_def Let_def list_ex_iff)

lemma ingest_run:
  "isMounted s \<Longrightarrow> es \<noteq> [] \<Longrightarrow>
   pendingLogs (foldl (monitor_step tauri) s (map Ingest es)) \<noteq> [] \<and>
   logs (foldl (monitor_step tauri) s (map Ingest es)) = logs s \<and>
   isMounted (foldl (monitor_step tauri) s (map Ingest es)) \<and>
   (distinct (map log_id (pendingLogs s)) \<longrightarrow>
      distinct (map log_id (pendingLogs (foldl (monitor_step tauri) s (map Ingest es)))))"
proof (induction es arbitrary: s rule: rev_induct)
  case Nil
  then show ?case by simp
next
  case (snoc e es)
  show ?case
  proof (cases "es = []")
    case True
    with snoc.prems show ?thesis
      by (simp add: on_request_event_frame on_request_event_pending on_request_event_distinct)
  next
    case False
    with snoc.IH [OF snoc.prems(1)] show ?thesis
      by (simp add: on_request_event_frame on_request_event_pending on_request_event_distinct)
  qed
qed

lemma flush_timeout_effect:
  "isMounted s \<Longrightarrow> pendingLogs s \<noteq> [] \<Longrightarrow>
   logs (flush_timeout s) = merge_pending (pendingLogs s) (logs s) \<and>
   pendingLogs (flush_timeout s) = pendingLogs s \<and>
   flushing (flush_timeout s) = Suc (flushing s)"
  by (simp add: flush_timeout_def Let_def)

lemma flush_timeout_resume_effect:
  "flushing s \<noteq> 0 \<Longrightarrow>
   logs (flush_timeout_resume r s) = logs s \<and> pendingLogs (flush_timeout_resume r s) = []"
  by (auto simp: flush_timeout_resume_def Let_def split: sum.splits option.splits prod.splits)

text \<open>
  When nothing runs between the two parts of the timer callback, the flush does what
  is expected of it: after any non-empty sequence of pushed entries has been ingested
  by a mounted monitor, it sets the view to the pending entries whose id is not already
  in the view, followed by the old view, sorted by timestamp descending and cut to 100
  entries, and the pending buffer is empty.
\<close>

lemma flush_uninterrupted:
  assumes "isMounted s" and "es \<noteq> []"
  shows "let s' = foldl (monitor_step tauri) s (map Ingest es);
             s'' = foldl (monitor_step tauri) s' [Flush, FlushResume r] in
     logs s'' = take 100 (sort_key (\<lambda>l. - timestamp l)
                  (filter (\<lambda>l. log_id l \<notin> log_id ` set (logs s)) (pendingLogs s') @ logs s))
     \<and> sorted_wrt (\<lambda>a b. timestamp b \<le> timestamp a) (logs s'')
     \<and> length (logs s'') \<le> 100
     \<and> pendingLogs s'' = []
     \<and> (distinct (map log_id (logs s)) \<and> distinct (map log_id (pendingLogs s))
          \<longrightarrow> distinct (map log_id (logs s'')))"
proof -
  let ?s' = "foldl (monitor_step tauri) s (map Ingest es)"
  note run = ingest_run [OF assms]
  have b: "logs (flush_timeout ?s') = merge_pending (pendingLogs ?s') (logs s)"
    "flushing (flush_timeout ?s') \<noteq> 0"
    using flush_timeout_effect [of ?s'] run by simp_all
  have fl: "logs (flush_timeout_resume r (flush_timeout ?s')) =
            merge_pending (pendingLogs ?s') (logs s)"
    "pendingLogs (flush_timeout_resume r (flush_timeout ?s')) = []"
    using flush_timeout_resume_effect [OF b(2), of r] b(1) by simp_all
  have "merge_pending (pendingLogs ?s') (logs s) =
        take 100 (sort_key (\<lambda>l. - timestamp l)
          (filter (\<lambda>l. log_id l \<notin> log_id ` set (logs s)) (pendingLogs ?s') @ logs s))"
    by (simp add: merge_pending_def Let_def)
  moreover have "distinct (map log_id (logs s)) \<and> distinct (map log_id (pendingLogs s))
          \<longrightarrow> distinct (map log_id (merge_pending (pendingLogs ?s') (logs s)))"
    using run merge_pending_distinct by blast
  ultimately show ?thesis
    unfolding Let_def foldl.simps monitor_step.simps fl
    using merge_pending_sorted [of "pendingLogs ?s'" "logs s"]
      merge_pending_length [of "pendingLogs ?s'" "logs s"]
    by simp
qed

text \<open>
  The scenario of the specification, with nothing between the two parts of the
  callback: ingesting \<open>a\<close> (100), \<open>b\<close> (200) and \<open>a\<close> again, then flushing, yields
  the view \<open>[b, a]\<close>.
\<close>

lemma flush_scenario:
  "logs (foldl (monitor_step True) monitor_init
      [Mount, Listened 0 (Inr ()), Ingest entry_a, Ingest entry_b, Ingest entry_a,
       Flush, FlushResume (Inl (Other_value ''offline''))])
     = [summary entry_b, summary entry_a] \<and>
   pendingLogs (foldl (monitor_step True) monitor_init
      [Mount, Listened 0 (Inr ()), Ingest entry_a, Ingest entry_b, Ingest entry_a,
       Flush, FlushResume (Inl (Other_value ''offline''))]) = []"
  by (simp add: monitor_init_def mount_effect_def setupListener_def setupListener_resume_def
      on_request_event_def flush_timeout_def flush_timeout_resume_def merge_pending_def
      entry_a_def entry_b_def summary_def Let_def)

text \<open>
  C1 at a run in which an event arrives while the timer callback waits for the stats:
  the monitor is mounted in the native runtime and its listener is registered, \<open>a\<close> is
  pushed, the timer fires and merges \<open>a\<close>, \<open>b\<close> is pushed while the callback waits at
  its \<open>await\<close>, the callback resumes and empties the pending buffer, and the timer that
  \<open>b\<close> armed fires and finds nothing pending. The backend has counted two requests;
  the view holds \<open>a\<close> alone, and \<open>b\<close> is in neither the view nor the buffer.
\<close>

theorem flush_loses_entry_pushed_during_fetch:
  "logs (foldl (monitor_step True) monitor_init
      [Mount, Listened 0 (Inr ()), Ingest entry_a, Flush, Ingest entry_b,
       FlushResume (Inr (None, 2)), Flush]) = [summary entry_a] \<and>
   pendingLogs (foldl (monitor_step True) monitor_init
      [Mount, Listened 0 (Inr ()), Ingest entry_a, Flush, Ingest entry_b,
       FlushResume (Inr (None, 2)), Flush]) = [] \<and>
   flushing (foldl (monitor_step True) monitor_init
      [Mount, Listened 0 (Inr ()), Ingest entry_a, Flush, Ingest entry_b,
       FlushResume (Inr (None, 2)), Flush]) = 0 \<and>
   totalCount (foldl (monitor_step True) monitor_init
      [Mount, Listened 0 (Inr ()), Ingest entry_a, Flush, Ingest entry_b,
       FlushResume (Inr (None, 2)), Flush]) = 2 \<and>
   pendingLogs (foldl (monitor_step True) monitor_init
      [Mount, Listened 0 (Inr ()), Ingest entry_a, Flush, Ingest entry_b])
     = [summary entry_a, summary entry_b]"
  by (simp add: monitor_init_def mount_effect_def setupListener_def setupListener_resume_def
      on_request_event_def flush_timeout_def flush_timeout_resume_def merge_pending_def
      entry_a_def entry_b_def summary_def Let_def)

text \<open>A \<open>loadData\<close> that reads \<open>loading\<close> as true returns at once.\<close>

lemma loadData_while_loading: "loadData True b s = (Inr (), s)"
  by (simp add: loadData_def)

lemma loadData_never_rejects: "fst (loadData seen b s) = Inr ()"
  by (simp add: loadData_def caught_def apply_config_def Let_def
      split: sum.splits option.splits prod.splits)

text \<open>
  C3, as the code has it. When \<open>loadData\<close> reads \<open>loading\<close> as false: a pull that
  returns an array replaces the view by it and empties the pending buffer, whatever was
  pending; a pull that fails (a rejection or timeout of any call up to the history
  query) leaves the view, the stats and the pending buffer as they were, writes the
  error to the console, followed by a second line when it is the timeout, and still
  fulfils the caller's promise. Nothing is said of the total count.
\<close>

theorem loadData_pull:
  "(case pulled b of
      Inr (Some h) \<Rightarrow>
        logs (snd (loadData False b s)) = h \<and>
        pendingLogs (snd (loadData False b s)) = []
    | Inr None \<Rightarrow>
        logs (snd (loadData False b s)) = logs s \<and>
        pendingLogs (snd (loadData False b s)) = pendingLogs s
    | Inl e \<Rightarrow>
        logs (snd (loadData False b s)) = logs s \<and>
        stats (snd (loadData False b s)) = stats s \<and>
        pendingLogs (snd (loadData False b s)) = pendingLogs s \<and>
        console_errors (snd (loadData False b s)) =
          console_errors s @ (''Failed to load proxy data'', Some e) #
            (if e = Error_object ''Request timeout''
             then [(''Loading monitor data timeout, please try again later'', None)]
             else []) \<and>
        fst (loadData False b s) = Inr ())"
  by (cases "load_config_result b"; cases "set_enabled_result b"; cases "count_result b";
      cases "history_result b"; cases "stats_result b")
     (auto simp: pulled_def loadData_def caught_def apply_config_def Let_def
       split: option.splits)

theorem loadData_pull_witness:
  "pulled (page_backend [entry_b, entry_a]) = Inr (Some [entry_b, entry_a]) \<and>
   logs (snd (loadData False (page_backend [entry_b, entry_a])
                (monitor_init\<lparr>pendingLogs := [summary entry_a]\<rparr>))) = [entry_b, entry_a] \<and>
   pendingLogs (snd (loadData False (page_backend [entry_b, entry_a])
                (monitor_init\<lparr>pendingLogs := [summary entry_a]\<rparr>))) = [] \<and>
   pulled failing_backend = Inl (Error_object ''Request timeout'') \<and>
   logs (snd (loadData False failing_backend (monitor_init\<lparr>pendingLogs := [summary entry_a]\<rparr>))) = [] \<and>
   pendingLogs (snd (loadData False failing_backend (monitor_init\<lparr>pendingLogs := [summary entry_a]\<rparr>)))
     = [summary entry_a] \<and>
   console_errors (snd (loadData False failing_backend (monitor_init\<lparr>pendingLogs := [summary entry_a]\<rparr>)))
     = [(''Failed to load proxy data'', Some (Error_object ''Request timeout'')),
        (''Loading monitor data timeout, please try again later'', None)]"
proof -
  let ?s = "monitor_init\<lparr>pendingLogs := [summary entry_a]\<rparr>"
  have l: "logs ?s = []" "pendingLogs ?s = [summary entry_a]" "console_errors ?s = []"
    by (simp_all add: monitor_init_def)
  have p1: "pulled (page_backend [entry_b, entry_a]) = Inr (Some [entry_b, entry_a])"
    by (simp add: pulled_def page_backend_def)
  have p2: "pulled failing_backend = Inl (Error_object ''Request timeout'')"
    by (simp add: pulled_def failing_backend_def)
  show ?thesis
    using loadData_pull [of "page_backend [entry_b, entry_a]" ?s]
          loadData_pull [of failing_backend ?s] l
    unfolding p1 p2 by simp
qed

text \<open>
  Where C3 fails as stated: the history query times out after the count query has
  answered, so the total count has changed from 0 to 7, and the caller sees no failure.
\<close>

theorem loadData_failure_counterexample:
  "history_result failing_backend = Inl (Error_object ''Request timeout'') \<and>
   totalCount monitor_init = 0 \<and>
   totalCount (snd (loadData False failing_backend monitor_init)) = 7 \<and>
   fst (loadData False failing_backend monitor_init) = Inr ()"
  by (simp add: failing_backend_def monitor_init_def loadData_def caught_def apply_config_def)

lemma loadData_logs:
  "logs (snd (loadData seen b s)) = logs s \<or>
   (\<exists>h. history_result b = Inr (Some h) \<and> logs (snd (loadData seen b s)) = h)"
  by (cases "load_config_result b"; cases "set_enabled_result b"; cases "count_result b";
      cases "history_result b"; cases "stats_result b")
     (auto simp: loadData_def caught_def apply_config_def Let_def split: option.splits)

lemma flush_timeout_length:
  "length (logs s) \<le> 100 \<Longrightarrow> length (logs (flush_timeout s)) \<le> 100"
  by (simp add: flush_timeout_def Let_def merge_pending_length)

lemma flush_timeout_resume_logs: "logs (flush_timeout_resume r s) = logs s"
  by (auto simp: flush_timeout_resume_def Let_def split: sum.splits option.splits prod.splits)

lemma monitor_step_length:
  assumes "page_within 100 op" and "length (logs s) \<le> 100"
  shows "length (logs (monitor_step tauri s op)) \<le> 100"
proof (cases op)
  case Mount
  then show ?thesis
    using assms(2) by (simp add: mount_effect_def setupListener_def Let_def)
next
  case Unmount
  then show ?thesis
    using assms(2) by (simp add: cleanup_effect_def Let_def split: option.splits)
next
  case (Listened k r)
  then show ?thesis
    using assms(2) by (simp add: setupListener_resume_def Let_def split: sum.splits)
next
  case (Ingest e)
  then show ?thesis using assms(2) by (simp add: on_request_event_frame)
next
  case Flush
  then show ?thesis using assms(2) by (simp add: flush_timeout_length)
next
  case (FlushResume r)
  then show ?thesis using assms(2) by (simp add: flush_timeout_resume_logs)
next
  case (Reconcile seen b)
  then show ?thesis
    using assms loadData_logs [of seen b s]
    by (auto simp: page_within_def)
qed

lemma monitor_run_length:
  "list_all (page_within 100) ops \<Longrightarrow> length (logs s) \<le> 100 \<Longrightarrow>
   length (logs (foldl (monitor_step tauri) s ops)) \<le> 100"
  by (induction ops arbitrary: s) (simp_all add: monitor_step_length)

lemma merge_pending_evicted:
  assumes "x \<in> set v \<union> {l \<in> set p. log_id l \<notin> log_id ` set v}"
    and "x \<notin> set (merge_pending p v)"
    and "kept \<in> set (merge_pending p v)"
  shows "timestamp x \<le> timestamp kept"
proof -
  let ?m = "sort_key (\<lambda>l. - timestamp l) (filter (\<lambda>l. log_id l \<notin> set (map log_id v)) p @ v)"
  have "x \<in> set ?m"
    using assms(1) by auto
  then have "x \<in> set (take 100 ?m) \<union> set (drop 100 ?m)"
    unfolding set_append [symmetric] append_take_drop_id .
  moreover have "x \<notin> set (take 100 ?m)"
    using assms(2) by (simp add: merge_pending_def Let_def)
  ultimately have "x \<in> set (drop 100 ?m)"
    by blast
  with assms(3) show ?thesis
    by (rule merge_pending_evicts_oldest)
qed

lemma loadData_installs_page:
  "pulled b = Inr (Some h) \<Longrightarrow> logs (snd (loadData False b s)) = h"
  by (cases "load_config_result b"; cases "set_enabled_result b"; cases "count_result b";
      cases "history_result b"; cases "stats_result b")
     (auto simp: pulled_def loadData_def caught_def apply_config_def Let_def
       split: option.splits)

section \<open>The capacity bound of both feeds\<close>

text \<open>
  C8, as the code has it. Request logs: in a run of the monitor's callbacks in which no
  pulled page is longer than 100, a view of at most 100 entries stays so; the timer
  callback of a mounted monitor with a non-empty buffer sets the view to the first 100
  entries of the pending entries with unseen ids and the old view, sorted by timestamp
  descending, so that every entry of those that it leaves out is at most as recent as
  every entry it keeps; and a pull that returns a page installs that page unchanged,
  whatever its length. Debug logs: in a run of the store's actions in which no load
  returns more than \<open>MAX_LOGS\<close> entries a view of at most \<open>MAX_LOGS\<close> entries stays so;
  \<open>addLog\<close> leaves the last \<open>MAX_LOGS\<close> entries of the old view followed by the new
  entry (the entries at the front, which arrived first, are dropped); and a load
  installs the loaded entries unchanged.
\<close>

theorem view_bounded:
  "(list_all (page_within 100) ops \<and> length (logs s) \<le> 100 \<longrightarrow>
      length (logs (foldl (monitor_step tauri) s ops)) \<le> 100) \<and>
   (isMounted m \<and> pendingLogs m \<noteq> [] \<longrightarrow>
      logs (monitor_step tauri m Flush) =
        take 100 (sort_key (\<lambda>l. - timestamp l)
          (filter (\<lambda>l. log_id l \<notin> log_id ` set (logs m)) (pendingLogs m) @ logs m)) \<and>
      (\<forall>x \<in> set (logs m) \<union> {l \<in> set (pendingLogs m). log_id l \<notin> log_id ` set (logs m)}.
         x \<notin> set (logs (monitor_step tauri m Flush)) \<longrightarrow>
         (\<forall>kept \<in> set (logs (monitor_step tauri m Flush)). timestamp x \<le> timestamp kept))) \<and>
   (pulled b = Inr (Some h) \<longrightarrow>
      logs (monitor_step tauri m (Reconcile False b)) = h) \<and>
   (list_all (loads_within MAX_LOGS) dops \<and> length (logs_dc d) \<le> MAX_LOGS \<longrightarrow>
      length (logs_dc (foldl (debug_step tauri) d dops)) \<le> MAX_LOGS) \<and>
   logs_dc (debug_step tauri d (AddLog e)) =
     drop (length (logs_dc d) + 1 - MAX_LOGS) (logs_dc d @ [e]) \<and>
   logs_dc (debug_step tauri d (LoadLogs (Inr ls))) = ls"
proof -
  have flush: "isMounted m \<and> pendingLogs m \<noteq> [] \<longrightarrow>
      logs (monitor_step tauri m Flush) =
        take 100 (sort_key (\<lambda>l. - timestamp l)
          (filter (\<lambda>l. log_id l \<notin> log_id ` set (logs m)) (pendingLogs m) @ logs m)) \<and>
      (\<forall>x \<in> set (logs m) \<union> {l \<in> set (pendingLogs m). log_id l \<notin> log_id ` set (logs m)}.
         x \<notin> set (logs (monitor_step tauri m Flush)) \<longrightarrow>
         (\<forall>kept \<in> set (logs (monitor_step tauri m Flush)). timestamp x \<le> timestamp kept))"
  proof
    assume "isMounted m \<and> pendingLogs m \<noteq> []"
    then have l: "logs (monitor_step tauri m Flush) = merge_pending (pendingLogs m) (logs m)"
      using flush_timeout_effect [of m] by simp
    have "merge_pending (pendingLogs m) (logs m) =
        take 100 (sort_key (\<lambda>l. - timestamp l)
          (filter (\<lambda>l. log_id l \<notin> log_id ` set (logs m)) (pendingLogs m) @ logs m))"
      by (simp add: merge_pending_def Let_def)
    moreover have "\<forall>x \<in> set (logs m) \<union> {l \<in> set (pendingLogs m). log_id l \<notin> log_id ` set (logs m)}.
         x \<notin> set (merge_pending (pendingLogs m) (logs m)) \<longrightarrow>
         (\<forall>kept \<in> set (merge_pending (pendingLogs m) (logs m)). timestamp x \<le> timestamp kept)"
      using merge_pending_evicted [of _ "logs m" "pendingLogs m"] by blast
    ultimately show "logs (monitor_step tauri m Flush) =
        take 100 (sort_key (\<lambda>l. - timestamp l)
          (filter (\<lambda>l. log_id l \<notin> log_id ` set (logs m)) (pendingLogs m) @ logs m)) \<and>
      (\<forall>x \<in> set (logs m) \<union> {l \<in> set (pendingLogs m). log_id l \<notin> log_id ` set (logs m)}.
         x \<notin> set (logs (monitor_step tauri m Flush)) \<longrightarrow>
         (\<forall>kept \<in> set (logs (monitor_step tauri m Flush)). timestamp x \<le> timestamp kept))"
      unfolding l by simp
  qed
  have pull: "pulled b = Inr (Some h) \<longrightarrow>
      logs (monitor_step tauri m (Reconcile False b)) = h"
    using loadData_installs_page [of b h m] by simp
  have add: "logs_dc (debug_step tauri d (AddLog e)) =
     drop (length (logs_dc d) + 1 - MAX_LOGS) (logs_dc d @ [e])"
    by (simp add: addLog_logs)
  have load: "logs_dc (debug_step tauri d (LoadLogs (Inr ls))) = ls"
    by (simp add: loadLogs_def)
  from flush pull add load show ?thesis
    using monitor_run_length [where ops = ops and s = s and tauri = tauri]
      debug_run_length [where ops = dops and s = d and tauri = tauri]
    by blast
qed

text \<open>
  An instance in which both feeds evict: a monitor whose view holds the 100 entries of
  \<open>full_page\<close> receives \<open>b\<close> (200), and the flush puts \<open>b\<close> first and leaves out the
  entry with timestamp 1; a debug store that holds 5000 entries is pushed one more and
  leaves out the first.
\<close>

theorem view_bounded_witness:
  "list_all (page_within 100)
     [Mount, Listened 0 (Inr ()), Reconcile False (page_backend full_page), Ingest entry_b, Flush] \<and>
   length (logs monitor_init) \<le> 100 \<and>
   length (logs (foldl (monitor_step True) monitor_init
     [Mount, Listened 0 (Inr ()), Reconcile False (page_backend full_page), Ingest entry_b, Flush])) \<le> 100 \<and>
   isMounted (foldl (monitor_step True) monitor_init
     [Mount, Listened 0 (Inr ()), Reconcile False (page_backend full_page), Ingest entry_b]) \<and>
   pendingLogs (foldl (monitor_step True) monitor_init
     [Mount, Listened 0 (Inr ()), Reconcile False (page_backend full_page), Ingest entry_b]) \<noteq> [] \<and>
   logs (foldl (monitor_step True) monitor_init
     [Mount, Listened 0 (Inr ()), Reconcile False (page_backend full_page), Ingest entry_b]) = full_page \<and>
   logs (monitor_step True (foldl (monitor_step True) monitor_init
     [Mount, Listened 0 (Inr ()), Reconcile False (page_backend full_page), Ingest entry_b]) Flush)
     = summary entry_b # take 99 full_page \<and>
   full_page = take 99 full_page @ [summary (entry_a\<lparr>log_id := ''x'', timestamp := 1\<rparr>)] \<and>
   pulled (page_backend full_page) = Inr (Some full_page) \<and>
   logs (monitor_step True monitor_init (Reconcile False (page_backend full_page))) = full_page \<and>
   list_all (loads_within MAX_LOGS)
     [LoadLogs (Inr (replicate 5000 (debug_entry 0))), AddLog (debug_entry 1)] \<and>
   length (logs_dc debug_init) \<le> MAX_LOGS \<and>
   length (logs_dc (foldl (debug_step True) debug_init
     [LoadLogs (Inr (replicate 5000 (debug_entry 0))), AddLog (debug_entry 1)])) \<le> MAX_LOGS \<and>
   logs_dc (debug_step True (debug_init\<lparr>logs_dc := replicate 5000 (debug_entry 0)\<rparr>)
     (AddLog (debug_entry 1))) = replicate 4999 (debug_entry 0) @ [debug_entry 1]"
proof -
  let ?ops = "[Mount, Listened 0 (Inr ()), Reconcile False (page_backend full_page), Ingest entry_b, Flush]"
  let ?s1 = "foldl (monitor_step True) monitor_init
     [Mount, Listened 0 (Inr ()), Reconcile False (page_backend full_page), Ingest entry_b]"
  let ?dops = "[LoadLogs (Inr (replicate 5000 (debug_entry 0))), AddLog (debug_entry 1)]"
  let ?d = "debug_init\<lparr>logs_dc := replicate 5000 (debug_entry 0)\<rparr>"
  have len: "length full_page = 100"
    by (simp add: full_page_def)
  have a: "list_all (page_within 100) ?ops"
    by (simp add: page_within_def page_backend_def len)
  have b: "length (logs monitor_init) \<le> 100"
    by (simp add: monitor_init_def)
  have s1: "isMounted ?s1" "pendingLogs ?s1 = [summary entry_b]" "logs ?s1 = full_page"
    by (simp_all add: monitor_init_def mount_effect_def setupListener_def
        setupListener_resume_def loadData_def apply_config_def page_backend_def
        on_request_event_def summary_def Let_def)
  have p: "pulled (page_backend full_page) = Inr (Some full_page)"
    by (simp add: pulled_def page_backend_def)
  have srt: "take 100 (sort_key (\<lambda>l. - timestamp l)
      (filter (\<lambda>l. log_id l \<notin> log_id ` set full_page) [summary entry_b] @ full_page))
     = summary entry_b # take 99 full_page"
    by code_simp
  have old: "full_page = take 99 full_page @ [summary (entry_a\<lparr>log_id := ''x'', timestamp := 1\<rparr>)]"
    by code_simp
  have d: "list_all (loads_within MAX_LOGS) ?dops"
    by (simp add: loads_within_def loaded_within_def MAX_LOGS_def)
  have e: "length (logs_dc debug_init) \<le> MAX_LOGS"
    by (simp add: debug_init_def)
  have dr: "drop (length (logs_dc ?d) + 1 - MAX_LOGS) (logs_dc ?d @ [debug_entry 1])
     = replicate 4999 (debug_entry 0) @ [debug_entry 1]"
    by (simp add: MAX_LOGS_def)
  note t1 = view_bounded [where ops = ?ops and s = monitor_init and tauri = True and m = ?s1
      and b = "page_backend full_page" and h = full_page and dops = ?dops and d = debug_init
      and e = "debug_entry 1" and ls = "[]"]
  note t2 = view_bounded [where ops = ?ops and s = monitor_init and tauri = True
      and m = monitor_init and b = "page_backend full_page" and h = full_page and dops = ?dops
      and d = ?d and e = "debug_entry 1" and ls = "[]"]
  have 1: "length (logs (foldl (monitor_step True) monitor_init ?ops)) \<le> 100"
    using t1 [THEN conjunct1] a b by (rule mp [OF _ conjI])
  have "isMounted ?s1 \<and> pendingLogs ?s1 \<noteq> []"
    using s1 by simp
  with t1 [THEN conjunct2, THEN conjunct1]
  have "logs (monitor_step True ?s1 Flush) =
        take 100 (sort_key (\<lambda>l. - timestamp l)
          (filter (\<lambda>l. log_id l \<notin> log_id ` set (logs ?s1)) (pendingLogs ?s1) @ logs ?s1))"
    by (rule mp [THEN conjunct1])
  then have 2: "logs (monitor_step True ?s1 Flush) = summary entry_b # take 99 full_page"
    unfolding s1 srt .
  have 3: "logs (monitor_step True monitor_init (Reconcile False (page_backend full_page))) = full_page"
    using t2 [THEN conjunct2, THEN conjunct2, THEN conjunct1] p by (rule mp)
  have 4: "length (logs_dc (foldl (debug_step True) debug_init ?dops)) \<le> MAX_LOGS"
    using t1 [THEN conjunct2, THEN conjunct2, THEN conjunct2, THEN conjunct1] d e
    by (rule mp [OF _ conjI])
  have 5: "logs_dc (debug_step True ?d (AddLog (debug_entry 1))) =
        replicate 4999 (debug_entry 0) @ [debug_entry 1]"
    using t2 [THEN conjunct2, THEN conjunct2, THEN conjunct2, THEN conjunct2, THEN conjunct1]
    unfolding dr .
  from s1 have s1': "pendingLogs ?s1 \<noteq> []"
    by simp
  show ?thesis
    by (intro conjI a b 1 s1(1) s1' s1(3) 2 old p 3 d e 4 5)
qed

text \<open>
  Where C8 fails as stated: a pull installs its page as it is, so a page of 101 entries
  gives a view of 101 entries.
\<close>

theorem view_bounded_counterexample:
  "\<not> length (logs (foldl (monitor_step True) monitor_init [Reconcile False (page_backend long_page)])) \<le> 100"
proof -
  have "logs (foldl (monitor_step True) monitor_init [Reconcile False (page_backend long_page)]) = long_page"
    by (simp add: loadData_def apply_config_def page_backend_def monitor_init_def)
  moreover have "length long_page = 101"
    by (simp add: long_page_def)
  ultimately show ?thesis by simp
qed

section \<open>Subscription lifecycle of both feeds\<close>

text \<open>
  The guards as far as they go: starting the polling timer while a timer handle is
  stored, starting the listener while a listener handle is stored, and \<open>setupListener\<close>
  while its flag is up change nothing; stopping when no handle is stored changes
  nothing.
\<close>

lemma subscription_guards:
  "truthy_handle (pollInterval s) \<Longrightarrow> startPolling s = s"
  "unlistenFn s \<noteq> None \<Longrightarrow> startListening tauri s = s"
  "pollInterval s = None \<Longrightarrow> stopPolling s = s"
  "unlistenFn s = None \<Longrightarrow> stopListening s = s"
  "listenerSetup m \<Longrightarrow> setupListener tauri k m = m"
  by (simp_all add: startPolling_def startListening_def stopPolling_def stopListening_def
      setupListener_def)

text \<open>
  When the call of \<open>listen\<close> settles before \<open>startListening\<close> is called again, the
  second call registers nothing.
\<close>

lemma startListening_settled_twice:
  "listeners (foldl (debug_step True) debug_init
      [StartListening, ListenedDC (Inr ()), StartListening, ListenedDC (Inr ())]) = [1]"
  by (simp add: startListening_def startListening_resume_def debug_init_def)

text \<open>
  C9 at two runs of the native runtime in which a start is repeated before the first
  call of \<open>listen\<close> has settled. Monitor: the effect runs, is cleaned up and runs again
  (as under \<open>React.StrictMode\<close>), then both calls of \<open>listen\<close> settle; the cleanup found
  no handle and lowered the flag, so the second run passed the guard: two listeners are
  registered, and the next cleanup removes the second only. Debug store:
  \<open>startListening\<close> is called twice, then both calls of \<open>listen\<close> settle; both calls
  passed the guard, two listeners are registered, the store holds the handle of the
  second, and \<open>stopListening\<close> removes the second only.
\<close>

theorem listener_registered_twice:
  "event_listeners (foldl (monitor_step True) monitor_init
      [Mount, Unmount, Mount, Listened 0 (Inr ()), Listened 1 (Inr ())]) = [1, 2] \<and>
   map unlistenFn_var (effects (foldl (monitor_step True) monitor_init
      [Mount, Unmount, Mount, Listened 0 (Inr ()), Listened 1 (Inr ())])) = [Some 1, Some 2] \<and>
   event_listeners (foldl (monitor_step True) monitor_init
      [Mount, Unmount, Mount, Listened 0 (Inr ()), Listened 1 (Inr ()), Unmount]) = [1] \<and>
   listeners (foldl (debug_step True) debug_init
      [StartListening, StartListening, ListenedDC (Inr ()), ListenedDC (Inr ())]) = [1, 2] \<and>
   unlistenFn (foldl (debug_step True) debug_init
      [StartListening, StartListening, ListenedDC (Inr ()), ListenedDC (Inr ())]) = Some 2 \<and>
   listeners (foldl (debug_step True) debug_init
      [StartListening, StartListening, ListenedDC (Inr ()), ListenedDC (Inr ()),
       StopListening]) = [1] \<and>
   unlistenFn (foldl (debug_step True) debug_init
      [StartListening, StartListening, ListenedDC (Inr ()), ListenedDC (Inr ()),
       StopListening]) = None"
  by (simp add: monitor_init_def mount_effect_def cleanup_effect_def setupListener_def
      setupListener_resume_def startListening_def startListening_resume_def
      stopListening_def debug_init_def Let_def)

section \<open>Properties of the command dispatcher\<close>

lemma str_includes_skip:
  "c \<notin> set s \<Longrightarrow> str_includes (c # p) (s @ r) = str_includes (c # p) r"
  by (induction s) auto

lemma str_replace_skip:
  "c \<notin> set s \<Longrightarrow> str_replace (c # p) rep (s @ r) = s @ str_replace (c # p) rep r"
  by (induction s) auto

lemma colon_not_ident: "\<not> ident_char CHR '':''"
  by (simp add: ident_char_def)

lemma ident_no_colon: "list_all ident_char t \<Longrightarrow> CHR '':'' \<notin> set t"
  using colon_not_ident by (auto simp: list_all_iff)

lemma render_delimited:
  "delimited segs \<Longrightarrow> render segs = [] \<or> (\<exists>c r. render segs = c # r \<and> \<not> ident_char c)"
  by (induction segs rule: delimited.induct) auto

lemma prefix_token:
  assumes "list_all ident_char k" and "delimited segs"
  shows "prefix k (t @ render segs) = prefix k t"
proof
  assume "prefix k (t @ render segs)"
  then consider "prefix k t" | us where "k = t @ us" "prefix us (render segs)"
    by (auto simp: prefix_append)
  then show "prefix k t"
  proof cases
    case 1
    then show ?thesis .
  next
    case 2
    show ?thesis
    proof (cases us)
      case Nil
      with 2 show ?thesis by simp
    next
      case (Cons u us')
      with 2 have "ident_char u"
        using assms(1) by (simp add: list_all_iff)
      moreover from 2 Cons obtain r where "render segs = u # r"
        by (auto simp: prefix_def)
      ultimately show ?thesis
        using render_delimited [OF assms(2)] by auto
    qed
  qed
next
  assume "prefix k t"
  then show "prefix k (t @ render segs)"
    by (simp add: prefix_prefix)
qed

lemma placeholder_match:
  assumes "wf_template segs" and "list_all ident_char k"
    and "\<forall>t \<in> set (tokens segs). prefix k t \<longrightarrow> k = t"
  shows "str_includes (CHR '':'' # k) (render segs) = (k \<in> set (tokens segs)) \<and>
         (k \<in> set (tokens segs) \<longrightarrow>
            str_replace (CHR '':'' # k) r (render segs) = render (subst_seg k r segs))"
  using assms
proof (induction segs rule: wf_template.induct)
  case 1
  then show ?case by simp
next
  case (2 s segs)
  then show ?case
    by (simp add: str_includes_skip str_replace_skip)
next
  case (3 t segs)
  then have id: "list_all ident_char t" and dl: "delimited segs" and wf: "wf_template segs"
    by simp_all
  have pt: "prefix k (t @ render segs) = (k = t)"
    using prefix_token [OF "3.prems"(2) dl, of t] "3.prems"(3) by auto
  have ih: "str_includes (CHR '':'' # k) (render segs) = (k \<in> set (tokens segs)) \<and>
         (k \<in> set (tokens segs) \<longrightarrow>
            str_replace (CHR '':'' # k) r (render segs) = render (subst_seg k r segs))"
    using "3.IH" [OF wf "3.prems"(2)] "3.prems"(3) by simp
  show ?case
  proof (cases "k = t")
    case True
    then show ?thesis by (simp add: pt)
  next
    case False
    have "str_includes (CHR '':'' # k) (render (Tok t # segs)) =
          str_includes (CHR '':'' # k) (t @ render segs)"
      using pt False by simp
    also have "\<dots> = str_includes (CHR '':'' # k) (render segs)"
      by (rule str_includes_skip [OF ident_no_colon [OF id]])
    finally have a: "str_includes (CHR '':'' # k) (render (Tok t # segs)) = (k \<in> set (tokens (Tok t # segs)))"
      using ih False by auto
    have "str_replace (CHR '':'' # k) r (render (Tok t # segs)) =
          CHR '':'' # str_replace (CHR '':'' # k) r (t @ render segs)"
      using pt False by simp
    also have "\<dots> = CHR '':'' # t @ str_replace (CHR '':'' # k) r (render segs)"
      by (simp add: str_replace_skip [OF ident_no_colon [OF id]])
    finally have b: "k \<in> set (tokens (Tok t # segs)) \<longrightarrow>
        str_replace (CHR '':'' # k) r (render (Tok t # segs)) = render (subst_seg k r (Tok t # segs))"
      using ih False by auto
    from a b show ?thesis by blast
  qed
qed

lemma delimited_subst: "delimited segs \<Longrightarrow> delimited (subst_seg k r segs)"
  by (induction segs rule: delimited.induct) auto

lemma wf_subst:
  "wf_template segs \<Longrightarrow> CHR '':'' \<notin> set r \<Longrightarrow> wf_template (subst_seg k r segs)"
  by (induction segs rule: wf_template.induct) (auto simp: delimited_subst)

lemma tokens_subst: "tokens (subst_seg k r segs) = remove1 k (tokens segs)"
  by (induction segs rule: tokens.induct) auto

lemma hex_digit_range: "hex_digit d \<in> set ''0123456789ABCDEF''"
proof -
  have "d mod 16 < length ''0123456789ABCDEF''" by simp
  then show ?thesis unfolding hex_digit_def by (rule nth_mem)
qed

lemma hex_digit_not_colon: "hex_digit d \<noteq> CHR '':''"
  using hex_digit_range [of d] by auto

lemma percent_no_colon: "CHR '':'' \<notin> set (percent c)"
  using hex_digit_not_colon [of "of_char c div 16"] hex_digit_not_colon [of "of_char c mod 16"]
  by (auto simp: percent_def)

lemma encodeURIComponent_no_colon: "CHR '':'' \<notin> set (encodeURIComponent s)"
  using percent_no_colon by (auto simp: encodeURIComponent_def uri_unreserved_def)

lemma form_encode_no_colon: "CHR '':'' \<notin> set (form_encode s)"
  using percent_no_colon by (auto simp: form_encode_def form_safe_def)

lemma search_params_no_colon: "CHR '':'' \<notin> set (search_params_toString ps)"
  by (induction ps rule: search_params_toString.induct) (auto simp: form_encode_no_colon)

lemma prefix_str_includes: "prefix p s \<Longrightarrow> str_includes p s"
  by (cases s) auto

lemma str_includes_append: "str_includes x (a @ x @ b)"
  by (induction a) (auto simp: prefix_str_includes)

lemma render_append: "render (xs @ ys) = render xs @ render ys"
  by (induction xs rule: render.induct) auto

lemma render_includes_lit: "Lit s \<in> set segs \<Longrightarrow> str_includes s (render segs)"
proof -
  assume "Lit s \<in> set segs"
  then obtain xs ys where "segs = xs @ Lit s # ys"
    by (auto simp: in_set_conv_decomp)
  then show ?thesis
    by (simp add: render_append str_includes_append)
qed

lemma tok_in_tokens: "Tok t \<in> set segs \<Longrightarrow> t \<in> set (tokens segs)"
  by (induction segs rule: tokens.induct) auto

lemma tokens_in_tok: "t \<in> set (tokens segs) \<Longrightarrow> Tok t \<in> set segs"
  by (induction segs rule: tokens.induct) auto

lemma resolve_other_key:
  "k \<notin> set (tokens segs) \<Longrightarrow> map (resolve ((k, v) # rest)) segs = map (resolve rest) segs"
  by (induction segs rule: tokens.induct) auto

lemma resolve_subst:
  assumes "k \<in> set (tokens segs)" and "distinct (tokens segs)"
  shows "map (resolve rest) (subst_seg k (encodeURIComponent (js_String v)) segs) =
         map (resolve ((k, v) # rest)) segs"
  using assms
proof (induction segs rule: tokens.induct)
  case 1
  then show ?case by simp
next
  case (2 s segs)
  then show ?case by simp
next
  case (3 t segs)
  show ?case
  proof (cases "t = k")
    case True
    then have "k \<notin> set (tokens segs)"
      using "3.prems"(2) by simp
    then have "map (resolve ((k, v) # rest)) segs = map (resolve rest) segs"
      by (rule resolve_other_key)
    then show ?thesis using True by simp
  next
    case False
    then have "map (resolve rest) (subst_seg k (encodeURIComponent (js_String v)) segs) =
         map (resolve ((k, v) # rest)) segs"
      using "3.IH" "3.prems" by simp
    then show ?thesis using False by simp
  qed
qed

lemma substitute_path_resolves:
  assumes "wf_template segs" and "distinct (tokens segs)" and "distinct (map fst rest)"
    and "\<forall>k \<in> set (map fst rest). list_all ident_char k \<and>
           (\<forall>t \<in> set (tokens segs). prefix k t \<longrightarrow> k = t)"
  shows "substitute_path rest (render segs, b) =
         (render (map (resolve rest) segs),
          filter (\<lambda>(k, v). k \<notin> set (tokens segs) \<inter> set (map fst rest)) b)"
  using assms
proof (induction rest arbitrary: segs b)
  case Nil
  have "map (resolve []) segs = segs"
    by (induction segs rule: tokens.induct) auto
  then show ?case by simp
next
  case (Cons kv rest)
  obtain k v where kv: "kv = (k, v)" by (cases kv)
  let ?r = "encodeURIComponent (js_String v)"
  have idk: "list_all ident_char k" and pre: "\<forall>t \<in> set (tokens segs). prefix k t \<longrightarrow> k = t"
    using Cons.prems(4) kv by auto
  note m = placeholder_match [OF Cons.prems(1) idk pre, of ?r]
  have rest_ok: "distinct (map fst rest)" and knew: "k \<notin> set (map fst rest)"
    using Cons.prems(3) kv by auto
  show ?case
  proof (cases "k \<in> set (tokens segs)")
    case True
    let ?segs' = "subst_seg k ?r segs"
    have wf': "wf_template ?segs'"
      by (rule wf_subst [OF Cons.prems(1) encodeURIComponent_no_colon])
    have tk': "tokens ?segs' = remove1 k (tokens segs)"
      by (rule tokens_subst)
    have d': "distinct (tokens ?segs')"
      using Cons.prems(2) by (simp add: tk')
    have sub: "set (tokens ?segs') = set (tokens segs) - {k}"
      using Cons.prems(2) by (simp add: tk')
    have keys': "\<forall>k' \<in> set (map fst rest). list_all ident_char k' \<and>
           (\<forall>t \<in> set (tokens ?segs'). prefix k' t \<longrightarrow> k' = t)"
      using Cons.prems(4) sub by auto
    have "substitute_path (kv # rest) (render segs, b) =
          substitute_path rest (render ?segs', delete_key k b)"
      using m True by (simp add: kv)
    also have "\<dots> = (render (map (resolve rest) ?segs'),
          filter (\<lambda>(k', v). k' \<notin> set (tokens ?segs') \<inter> set (map fst rest)) (delete_key k b))"
      by (rule Cons.IH [OF wf' d' rest_ok keys'])
    also have "map (resolve rest) ?segs' = map (resolve (kv # rest)) segs"
      unfolding kv by (rule resolve_subst [OF True Cons.prems(2)])
    also have "filter (\<lambda>(k', v). k' \<notin> set (tokens ?segs') \<inter> set (map fst rest)) (delete_key k b) =
               filter (\<lambda>(k', v). k' \<notin> set (tokens segs) \<inter> set (map fst (kv # rest))) b"
      unfolding delete_key_def filter_filter sub
      using True by (intro filter_cong) (auto simp: kv)
    finally show ?thesis .
  next
    case False
    have "substitute_path (kv # rest) (render segs, b) = substitute_path rest (render segs, b)"
      using m False by (simp add: kv)
    also have "\<dots> = (render (map (resolve rest) segs),
          filter (\<lambda>(k', v). k' \<notin> set (tokens segs) \<inter> set (map fst rest)) b)"
      using Cons.prems(4) by (intro Cons.IH [OF Cons.prems(1,2) rest_ok]) auto
    also have "map (resolve rest) segs = map (resolve (kv # rest)) segs"
      unfolding kv by (rule resolve_other_key [OF False, symmetric])
    also have "filter (\<lambda>(k', v). k' \<notin> set (tokens segs) \<inter> set (map fst rest)) b =
               filter (\<lambda>(k', v). k' \<notin> set (tokens segs) \<inter> set (map fst (kv # rest))) b"
      using False by (intro filter_cong) (auto simp: kv)
    finally show ?thesis .
  qed
qed

lemma args_fitD:
  assumes "args_fit args segs"
  shows "distinct (map fst args)"
    and "\<forall>k \<in> set (map fst args). list_all ident_char k \<and>
           (\<forall>t \<in> set (tokens segs). prefix k t \<longrightarrow> k = t)"
    and "set (tokens segs) \<subseteq> set (map fst args)"
  using assms by (auto simp: args_fit_def list_all_iff)

lemma resolved_no_colon:
  "wf_template segs \<Longrightarrow> set (tokens segs) \<subseteq> set (map fst args) \<Longrightarrow>
   CHR '':'' \<notin> set (render (map (resolve args) segs))"
proof (induction segs rule: wf_template.induct)
  case 1
  then show ?case by simp
next
  case (2 s segs)
  then show ?case by simp
next
  case (3 t segs)
  then obtain v where "map_of args t = Some v"
    by (cases "map_of args t") (auto simp: map_of_eq_None_iff)
  then show ?case
    using 3 by (simp add: encodeURIComponent_no_colon)
qed

lemma consumed_in_path:
  assumes "t \<in> set (tokens segs)" and "map_of args t = Some v"
  shows "str_includes (encodeURIComponent (js_String v)) (render (map (resolve args) segs))"
proof -
  have "Tok t \<in> set segs"
    using assms(1) by (rule tokens_in_tok)
  then have "resolve args (Tok t) \<in> set (map (resolve args) segs)"
    unfolding set_map by (rule imageI)
  then have "Lit (encodeURIComponent (js_String v)) \<in> set (map (resolve args) segs)"
    using assms(2) by simp
  then show ?thesis by (rule render_includes_lit)
qed

lemma query_excludes_consumed:
  assumes "distinct (map fst args)" and "t \<in> set (tokens segs)"
  shows "t \<notin> fst ` set (query_params args (render (map (resolve args) segs)))"
proof
  assume "t \<in> fst ` set (query_params args (render (map (resolve args) segs)))"
  then obtain v where in_args: "(t, v) \<in> set args"
    and kept: "\<not> str_includes (encodeURIComponent (js_String v)) (render (map (resolve args) segs))"
    by (auto simp: query_params_def)
  from in_args have "map_of args t = Some v"
    using assms(1) by (simp add: map_of_is_SomeI)
  then show False
    using consumed_in_path [OF assms(2)] kept by blast
qed

lemma search_params_empty: "search_params_toString q = [] \<longleftrightarrow> q = []"
  by (cases q rule: search_params_toString.cases) auto

lemma classify_response_fetched: "fetched (snd (classify_response rt resp w)) = fetched w"
  by (auto simp: classify_response_def notify_unauthorized_def dispatch_unauthorized_def
      handleUnauthorized_def Let_def split: sum.splits option.splits)

lemma request_fetched:
  assumes "\<not> isTauri rt" and "registry cmd = Some (template, m)"
  shows "fetched (snd (request rt registry cmd args w)) =
         fetched w @ [build_request template m args (sessionKey w)]"
  using assms
  by (auto simp: request_def lookup_mapping_def perform_fetch_def Let_def
      classify_response_fetched split: sum.splits)

lemma path_substitution_segments:
  assumes "\<not> isTauri rt" and "registry cmd = Some (render segs, m)"
    and "wf_template segs" and "distinct (tokens segs)" and "args_fit args segs"
  shows "let path = resolved_path args segs;
             remaining = filter (\<lambda>(k, v). k \<notin> set (tokens segs)) args;
             q = query_params args path;
             sent = build_request (render segs) m (Some args) (sessionKey w)
         in fetched (snd (request rt registry cmd (Some args) w)) = fetched w @ [sent] \<and>
            CHR '':'' \<notin> set (fst sent) \<and>
            fst sent = path @ (if (m = GET \<or> m = DELETE) \<and> q \<noteq> []
                               then ''?'' @ search_params_toString q else []) \<and>
            (\<forall>t \<in> set (tokens segs). t \<notin> fst ` set q) \<and>
            req_body (snd sent) = (if m = POST \<or> m = PATCH then Some (body_of remaining) else None) \<and>
            (\<forall>t \<in> set (tokens segs). t \<notin> fst ` set remaining)"
proof -
  note fit = args_fitD [OF assms(5)]
  let ?path = "resolved_path args segs"
  let ?remaining = "filter (\<lambda>(k, v). k \<notin> set (tokens segs)) args"
  let ?q = "query_params args ?path"
  let ?sent = "build_request (render segs) m (Some args) (sessionKey w)"
  have sub: "substitute_path args (render segs, args) = (?path, ?remaining)"
  proof -
    have "filter (\<lambda>(k, v). k \<notin> set (tokens segs) \<inter> set (map fst args)) args = ?remaining"
      by (intro filter_cong) (auto intro: rev_image_eqI)
    then show ?thesis
      using substitute_path_resolves [OF assms(3,4) fit(1,2), of args]
      by (simp add: resolved_path_def)
  qed
  have url: "fst ?sent = ?path @ (if (m = GET \<or> m = DELETE) \<and> ?q \<noteq> []
                               then ''?'' @ search_params_toString ?q else [])"
    by (cases m) (simp_all add: build_request_def sub search_params_empty Let_def)
  have body: "req_body (snd ?sent) = (if m = POST \<or> m = PATCH then Some (body_of ?remaining) else None)"
    by (cases m) (simp_all add: build_request_def sub Let_def)
  have "CHR '':'' \<notin> set ?path"
    unfolding resolved_path_def by (rule resolved_no_colon [OF assms(3) fit(3)])
  then have colon: "CHR '':'' \<notin> set (fst ?sent)"
    unfolding url by (simp add: search_params_no_colon)
  have q: "\<forall>t \<in> set (tokens segs). t \<notin> fst ` set ?q"
    unfolding resolved_path_def using query_excludes_consumed [OF fit(1)] by blast
  have r: "\<forall>t \<in> set (tokens segs). t \<notin> fst ` set ?remaining"
    by auto
  show ?thesis
    unfolding Let_def
    using request_fetched [where registry = registry and cmd = cmd, OF assms(1,2), of "Some args" w]
      colon url q body r
    by blast
qed

lemma registry_templates_ok:
  "list_all (\<lambda>(name, template, m). template_ok template) COMMAND_MAPPING_entries"
  by code_simp

lemma COMMAND_MAPPING_template_ok:
  assumes "COMMAND_MAPPING cmd = Some (template, m)"
  shows "template_ok template"
proof -
  have "(cmd, template, m) \<in> set COMMAND_MAPPING_entries"
    using assms unfolding COMMAND_MAPPING_def by (rule map_of_SomeD)
  then show ?thesis
    using registry_templates_ok by (auto simp: list_all_iff)
qed

lemma encodeURIComponent_no_dollar: "CHR ''$'' \<notin> set (encodeURIComponent s)"
proof -
  have h: "hex_digit d \<noteq> CHR ''$''" for d
    using hex_digit_range [of d] by auto
  have "CHR ''$'' \<notin> set (percent c)" for c
    using h [of "of_char c div 16"] h [of "of_char c mod 16"] by (auto simp: percent_def)
  then show ?thesis
    by (auto simp: encodeURIComponent_def uri_unreserved_def)
qed

text \<open>
  Where the substitution does what is asked of it. For a web-mode call of a command
  whose template is in order (literal text without colons and pairwise distinct tokens,
  each an identifier that is followed by the end of the template or by another
  character than an identifier character), with arguments whose keys are distinct
  identifiers, one for every token and none a proper prefix of a token name: exactly
  one request is issued; its URL holds no colon; it is the template with every token
  replaced by the URL-encoded value of its argument, followed for GET and DELETE by the
  query string of the arguments that pass the filter; no token's key is among the query
  parameters; and for POST and PATCH the body is built from the arguments without the
  tokens' keys.
\<close>

lemma path_substitution_fitting_keys:
  assumes "\<not> isTauri rt" and "registry cmd = Some (template, m)"
    and "template_ok template" and "args_fit args (parse_template template)"
  shows "let names = tokens (parse_template template);
             path = resolved_path args (parse_template template);
             remaining = filter (\<lambda>(k, v). k \<notin> set names) args;
             q = query_params args path;
             sent = build_request template m (Some args) (sessionKey w)
         in fetched (snd (request rt registry cmd (Some args) w)) = fetched w @ [sent] \<and>
            CHR '':'' \<notin> set (fst sent) \<and>
            fst sent = path @ (if (m = GET \<or> m = DELETE) \<and> q \<noteq> []
                               then ''?'' @ search_params_toString q else []) \<and>
            (\<forall>t \<in> set names. t \<notin> fst ` set q) \<and>
            req_body (snd sent) = (if m = POST \<or> m = PATCH then Some (body_of remaining) else None) \<and>
            (\<forall>t \<in> set names. t \<notin> fst ` set remaining)"
proof -
  let ?segs = "parse_template template"
  have r: "render ?segs = template" and wf: "wf_template ?segs" and d: "distinct (tokens ?segs)"
    using assms(3) by (simp_all add: template_ok_def Let_def)
  have reg: "registry cmd = Some (render ?segs, m)"
    using assms(2) r by simp
  show ?thesis
    using path_substitution_segments [where registry = registry and cmd = cmd and w = w,
        OF assms(1) reg wf d assms(4)]
    unfolding Let_def r .
qed

text \<open>
  The scenario of the specification: \<open>getThing\<close> with \<open>{id: "42", verbose: true}\<close>
  against \<open>/api/things/:id\<close> requests \<open>/api/things/42?verbose=true\<close>.
\<close>

lemma get_thing_scenario:
  "\<not> isTauri (web_runtime (Inr ok_response)) \<and>
   thing_registry ''getThing'' = Some (''/api/things/:id'', GET) \<and>
   template_ok ''/api/things/:id'' \<and>
   args_fit [(''id'', JStr ''42''), (''verbose'', JBool True)] (parse_template ''/api/things/:id'') \<and>
   map fst (fetched (snd (request (web_runtime (Inr ok_response)) thing_registry ''getThing''
       (Some [(''id'', JStr ''42''), (''verbose'', JBool True)]) (fresh_browser None))))
     = [''/api/things/42?verbose=true'']"
proof -
  let ?args = "[(''id'', JStr ''42''), (''verbose'', JBool True)]"
  have a: "\<not> isTauri (web_runtime (Inr ok_response))"
    by (simp add: web_runtime_def)
  have b: "thing_registry ''getThing'' = Some (''/api/things/:id'', GET)"
    by (simp add: thing_registry_def)
  have t: "parse_template ''/api/things/:id'' = [Lit ''/api/things/'', Tok ''id'']"
    by (simp add: ident_char_def)
  have c: "template_ok ''/api/things/:id''"
    unfolding template_ok_def t by (simp add: ident_char_def)
  have d: "args_fit ?args (parse_template ''/api/things/:id'')"
    unfolding t by (simp add: args_fit_def ident_char_def)
  have p: "resolved_path ?args [Lit ''/api/things/'', Tok ''id''] = ''/api/things/42''"
    by (simp add: resolved_path_def encodeURIComponent_def uri_unreserved_def)
  have q: "query_params ?args ''/api/things/42'' = [(''verbose'', ''true'')]"
    by (simp add: query_params_def encodeURIComponent_def uri_unreserved_def)
  have s: "search_params_toString [(''verbose'', ''true'')] = ''verbose=true''"
    by (simp add: form_encode_def form_safe_def)
  have f: "fetched (fresh_browser None) = []"
    by (simp add: fresh_browser_def)
  from path_substitution_fitting_keys [where registry = thing_registry and cmd = "''getThing''"
      and w = "fresh_browser None", OF a b c d]
  have "map fst (fetched (snd (request (web_runtime (Inr ok_response)) thing_registry ''getThing''
       (Some ?args) (fresh_browser None)))) = [''/api/things/42?verbose=true'']"
    unfolding Let_def t p q s f by simp
  with a b c d show ?thesis by blast
qed

lemma lookup_delete_account:
  "COMMAND_MAPPING ''delete_account'' = Some (''/api/accounts/:accountId'', DELETE)"
  by (simp add: COMMAND_MAPPING_def COMMAND_MAPPING_entries_def accounts_commands_def)

lemma lookup_add_account: "COMMAND_MAPPING ''add_account'' = Some (''/api/accounts'', POST)"
  by (simp add: COMMAND_MAPPING_def COMMAND_MAPPING_entries_def accounts_commands_def)

lemma lookup_list_accounts: "COMMAND_MAPPING ''list_accounts'' = Some (''/api/accounts'', GET)"
  by (simp add: COMMAND_MAPPING_def COMMAND_MAPPING_entries_def accounts_commands_def)

lemma lookup_toggle_proxy_status:
  "COMMAND_MAPPING ''toggle_proxy_status'' = Some (''/api/accounts/:accountId/toggle-proxy'', POST)"
  by (simp add: COMMAND_MAPPING_def COMMAND_MAPPING_entries_def accounts_commands_def)

lemma lookup_get_thing: "COMMAND_MAPPING ''get_thing'' = None"
  by code_simp

text \<open>
  A number is written as \<open>String\<close> writes it: \<open>delete_account\<close> with
  \<open>{accountId: 1e21}\<close> requests \<open>/api/accounts/1e%2B21\<close>.
\<close>

lemma number_argument_path:
  "map fst (fetched (snd (request (web_runtime (Inr ok_response)) COMMAND_MAPPING ''delete_account''
       (Some [(''accountId'', JNum ''1e+21'')]) (fresh_browser None))))
     = [''/api/accounts/1e%2B21'']"
proof -
  have a: "\<not> isTauri (web_runtime (Inr ok_response))"
    by (simp add: web_runtime_def)
  have u: "fst (build_request ''/api/accounts/:accountId'' DELETE
              (Some [(''accountId'', JNum ''1e+21'')]) None) = ''/api/accounts/1e%2B21''"
    by (simp add: build_request_def query_params_def encodeURIComponent_def uri_unreserved_def
        percent_def hex_digit_def)
  show ?thesis
    unfolding request_fetched [where registry = COMMAND_MAPPING and cmd = "''delete_account''",
        OF a lookup_delete_account]
    using u by (simp add: fresh_browser_def)
qed

text \<open>
  C2 at \<open>delete_account\<close> with \<open>{account: "ops", accountId: "42"}\<close>: the arguments
  hold a value for the one token of \<open>/api/accounts/:accountId\<close>, and the path asked for
  is \<open>/api/accounts/42\<close>. The loop takes the key \<open>account\<close> first; its placeholder
  \<open>:account\<close> occurs in the template, inside \<open>:accountId\<close>, so that occurrence is
  replaced by \<open>ops\<close>. The request goes to \<open>/api/accounts/opsId\<close>, and \<open>accountId\<close>,
  whose placeholder is no longer there, is sent in the query string.
\<close>

theorem prefix_key_corrupts_path:
  "COMMAND_MAPPING ''delete_account'' = Some (''/api/accounts/:accountId'', DELETE) \<and>
   parse_template ''/api/accounts/:accountId'' = [Lit ''/api/accounts/'', Tok ''accountId''] \<and>
   map_of [(''account'', JStr ''ops''), (''accountId'', JStr ''42'')] ''accountId'' = Some (JStr ''42'') \<and>
   resolved_path [(''account'', JStr ''ops''), (''accountId'', JStr ''42'')]
       [Lit ''/api/accounts/'', Tok ''accountId'']
     = ''/api/accounts/42'' \<and>
   map fst (fetched (snd (request (web_runtime (Inr ok_response)) COMMAND_MAPPING ''delete_account''
       (Some [(''account'', JStr ''ops''), (''accountId'', JStr ''42'')]) (fresh_browser None))))
     = [''/api/accounts/opsId?accountId=42'']"
proof -
  let ?args = "[(''account'', JStr ''ops''), (''accountId'', JStr ''42'')]"
  have a: "\<not> isTauri (web_runtime (Inr ok_response))"
    by (simp add: web_runtime_def)
  have p: "resolved_path ?args [Lit ''/api/accounts/'', Tok ''accountId''] = ''/api/accounts/42''"
    by (simp add: resolved_path_def encodeURIComponent_def uri_unreserved_def)
  have u: "fst (build_request ''/api/accounts/:accountId'' DELETE (Some ?args) None)
           = ''/api/accounts/opsId?accountId=42''"
    by (simp add: build_request_def query_params_def encodeURIComponent_def uri_unreserved_def
        form_encode_def form_safe_def)
  have "map fst (fetched (snd (request (web_runtime (Inr ok_response)) COMMAND_MAPPING
          ''delete_account'' (Some ?args) (fresh_browser None))))
        = [''/api/accounts/opsId?accountId=42'']"
    unfolding request_fetched [where registry = COMMAND_MAPPING and cmd = "''delete_account''",
        OF a lookup_delete_account]
    using u by (simp add: fresh_browser_def)
  moreover have "parse_template ''/api/accounts/:accountId'' = [Lit ''/api/accounts/'', Tok ''accountId'']"
    by (simp add: ident_char_def)
  ultimately show ?thesis
    using lookup_delete_account p by simp
qed

text \<open>
  In web mode a command that is neither a key of the registry nor a property name of
  \<open>Object.prototype\<close> is rejected with the error \<open>Command [cmd] not supported in Web
  mode.\<close> and the browser is left as it was: no request is issued.
\<close>

lemma unmapped_command_fails:
  assumes "\<not> isTauri rt" and "registry cmd = None" and "cmd \<notin> set Object_prototype_names"
  shows "request rt registry cmd args w =
           (Inl (JsError (''Command ['' @ cmd @ ''] not supported in Web mode.'')), w)"
  using assms by (simp add: request_def lookup_mapping_def)

lemma unmapped_get_thing:
  "request (web_runtime (Inr ok_response)) COMMAND_MAPPING ''get_thing'' None (fresh_browser None) =
     (Inl (JsError ''Command [get_thing] not supported in Web mode.''), fresh_browser None)"
proof -
  have a: "\<not> isTauri (web_runtime (Inr ok_response))"
    by (simp add: web_runtime_def)
  have c: "''get_thing'' \<notin> set Object_prototype_names"
    by (simp add: Object_prototype_names_def)
  show ?thesis
    using unmapped_command_fails [where registry = COMMAND_MAPPING and cmd = "''get_thing''"
        and args = None and w = "fresh_browser None", OF a lookup_get_thing c]
    by simp
qed

lemma lookup_constructor: "COMMAND_MAPPING ''constructor'' = None"
  by code_simp

text \<open>
  C6 at the command name \<open>constructor\<close>, which has no entry in the registry:
  \<open>COMMAND_MAPPING['constructor']\<close> is the inherited function \<open>Object\<close>, the check
  \<open>!mapping\<close> passes, and a call without arguments requests the URL \<open>undefined\<close>; it
  then settles by the response (here the page's HTML), not with the error
  \<open>Command [constructor] not supported in Web mode.\<close>
\<close>

theorem inherited_name_is_requested:
  "COMMAND_MAPPING ''constructor'' = None \<and>
   map fst (fetched (snd (request (web_runtime (Inr page_response)) COMMAND_MAPPING
       ''constructor'' None (fresh_browser None)))) = [''undefined''] \<and>
   fst (request (web_runtime (Inr page_response)) COMMAND_MAPPING ''constructor'' None
         (fresh_browser None)) = Inr (JStr ''<!doctype html>'')"
  by (simp add: lookup_constructor request_def lookup_mapping_def Object_prototype_names_def
      perform_fetch_def web_runtime_def page_response_def fresh_browser_def
      classify_response_def Let_def)

text \<open>
  C5, as the code has it. For a POST or PATCH call with arguments, the body is the value
  of the key \<open>request\<close> of the remaining arguments whenever that key is present with a
  value other than \<open>undefined\<close>, whatever other keys remain; otherwise it is the object
  of the remaining arguments.
\<close>

theorem post_body_placement:
  assumes "\<not> isTauri rt" and "registry cmd = Some (template, m)" and "m = POST \<or> m = PATCH"
  shows "let remaining = snd (substitute_path args (template, args));
             sent = last (fetched (snd (request rt registry cmd (Some args) w)))
         in req_body (snd sent) =
              Some (case map_of remaining ''request'' of
                      None \<Rightarrow> JObj remaining
                    | Some v \<Rightarrow> if v = JUndefined then JObj remaining else v) \<and>
            req_body (snd (last (fetched (snd (request rt registry cmd None w))))) = None"
proof -
  have "req_body (snd (build_request template m (Some args) (sessionKey w))) =
        Some (body_of (snd (substitute_path args (template, args))))"
    using assms(3)
    by (auto simp: build_request_def Let_def split: prod.splits)
  moreover have "req_body (snd (build_request template m None (sessionKey w))) = None"
    by (simp add: build_request_def)
  ultimately show ?thesis
    unfolding Let_def request_fetched [where registry = registry and cmd = cmd, OF assms(1,2)]
    by (simp add: body_of_def get_property_def split: option.splits)
qed

theorem post_body_placement_witness:
  "\<not> isTauri (web_runtime (Inr ok_response)) \<and>
   COMMAND_MAPPING ''toggle_proxy_status'' = Some (''/api/accounts/:accountId/toggle-proxy'', POST) \<and>
   (POST = POST \<or> POST = PATCH) \<and>
   req_body (snd (last (fetched (snd (request (web_runtime (Inr ok_response)) COMMAND_MAPPING
       ''toggle_proxy_status''
       (Some [(''accountId'', JStr ''42''), (''request'', JObj [(''enable'', JBool True)])])
       (fresh_browser None))))))
     = Some (JObj [(''enable'', JBool True)])"
proof -
  let ?args = "[(''accountId'', JStr ''42''), (''request'', JObj [(''enable'', JBool True)])]"
  have a: "\<not> isTauri (web_runtime (Inr ok_response))"
    by (simp add: web_runtime_def)
  note b = lookup_toggle_proxy_status
  have c: "POST = POST \<or> POST = PATCH" by simp
  have r: "snd (substitute_path ?args (''/api/accounts/:accountId/toggle-proxy'', ?args)) =
           [(''request'', JObj [(''enable'', JBool True)])]"
    by (simp add: delete_key_def encodeURIComponent_def uri_unreserved_def)
  show ?thesis
    using a b post_body_placement [where registry = COMMAND_MAPPING and cmd = "''toggle_proxy_status''"
        and args = ?args and w = "fresh_browser None", OF a b c]
    unfolding Let_def r by simp
qed

text \<open>
  Where C5 fails as stated: \<open>add_account\<close> with \<open>{request: {email: "a@b.c"}, dryRun:
  true}\<close>. Both keys remain after path substitution, and the body is the value of
  \<open>request\<close>, not the arguments object.
\<close>

theorem post_body_placement_counterexample:
  "COMMAND_MAPPING ''add_account'' = Some (''/api/accounts'', POST) \<and>
   snd (substitute_path [(''request'', JObj [(''email'', JStr ''a@b.c'')]), (''dryRun'', JBool True)]
          (''/api/accounts'', [(''request'', JObj [(''email'', JStr ''a@b.c'')]), (''dryRun'', JBool True)]))
     = [(''request'', JObj [(''email'', JStr ''a@b.c'')]), (''dryRun'', JBool True)] \<and>
   req_body (snd (last (fetched (snd (request (web_runtime (Inr ok_response)) COMMAND_MAPPING
       ''add_account''
       (Some [(''request'', JObj [(''email'', JStr ''a@b.c'')]), (''dryRun'', JBool True)])
       (fresh_browser None))))))
     = Some (JObj [(''email'', JStr ''a@b.c'')]) \<and>
   JObj [(''email'', JStr ''a@b.c'')] \<noteq>
     JObj [(''request'', JObj [(''email'', JStr ''a@b.c'')]), (''dryRun'', JBool True)]"
proof -
  let ?args = "[(''request'', JObj [(''email'', JStr ''a@b.c'')]), (''dryRun'', JBool True)]"
  have a: "\<not> isTauri (web_runtime (Inr ok_response))"
    by (simp add: web_runtime_def)
  note b = lookup_add_account
  have r: "snd (substitute_path ?args (''/api/accounts'', ?args)) = ?args"
    by simp
  have "req_body (snd (build_request ''/api/accounts'' POST (Some ?args) None)) =
        Some (JObj [(''email'', JStr ''a@b.c'')])"
    by (simp add: build_request_def body_of_def get_property_def)
  then have "req_body (snd (last (fetched (snd (request (web_runtime (Inr ok_response))
       COMMAND_MAPPING ''add_account'' (Some ?args) (fresh_browser None))))))
     = Some (JObj [(''email'', JStr ''a@b.c'')])"
    unfolding request_fetched [where registry = COMMAND_MAPPING and cmd = "''add_account''", OF a b]
    by (simp add: fresh_browser_def)
  with b r show ?thesis by simp
qed

text \<open>The classification of a response: status 2xx, and any other status.\<close>

lemma classify_response_success:
  assumes "200 \<le> resp_status resp" and "resp_status resp \<le> 299"
  shows "classify_response rt resp w =
           (Inr (if resp_status resp = 204 \<or> resp_text resp = [] then JNull
                 else case json_parse rt (resp_text resp) of
                        Some v \<Rightarrow> v
                      | None \<Rightarrow> JStr (resp_text resp)), w)"
  using assms by (simp add: classify_response_def Let_def split: option.splits)

lemma classify_response_failure:
  assumes "\<not> (200 \<le> resp_status resp \<and> resp_status resp \<le> 299)"
  shows "fst (classify_response rt resp w) =
           (case json_parse rt (resp_text resp) of
              None \<Rightarrow> Inl (Thrown (JStr (''HTTP Error '' @ digits (resp_status resp))))
            | Some errorData \<Rightarrow>
                (case error_property errorData of
                   Inl e \<Rightarrow> Inl e
                 | Inr err \<Rightarrow>
                     Inl (Thrown (if truthy err then err
                                  else JStr (''HTTP Error '' @ digits (resp_status resp))))))"
  using assms
  by (simp add: classify_response_def Let_def error_property_def get_property_def
      split: option.splits sum.splits)

text \<open>
  C7 at the response with status 500 and body \<open>null\<close>: the body parses, to \<open>null\<close>, and
  reading \<open>errorData.error\<close> throws a \<open>TypeError\<close>; the request does not reject with
  the string \<open>HTTP Error 500\<close>.
\<close>

theorem null_error_body_throws_TypeError:
  "fst (request (web_runtime (Inr (error_response 500 ''null''))) COMMAND_MAPPING ''list_accounts''
         None (fresh_browser None))
     = Inl (TypeError ''Cannot read properties of null'') \<and>
   Inl (TypeError ''Cannot read properties of null'')
     \<noteq> (Inl (Thrown (JStr ''HTTP Error 500'')) :: exn + jv)"
  by (simp add: request_def lookup_mapping_def perform_fetch_def lookup_list_accounts
      web_runtime_def error_response_def classify_response_def error_property_def Let_def)

text \<open>
  The debounce of the unauthorized signal: a 401 observed more than 2000ms after the
  last signal raises one signal, and the 401s observed within 2000ms of it raise none.
\<close>

lemma notify_unauthorized_quiet:
  assumes "lastAuthErrorTime w = Some t0" and "\<forall>t \<in> set ts. t - t0 \<le> 2000"
  shows "foldl (\<lambda>w t. notify_unauthorized t w) w ts = w"
  using assms by (induction ts) (simp_all add: notify_unauthorized_def)

lemma notify_unauthorized_fires:
  assumes "now0 - (case lastAuthErrorTime w of None \<Rightarrow> 0 | Some t \<Rightarrow> t) > 2000"
  shows "dispatched (notify_unauthorized now0 w) = Suc (dispatched w)"
    and "lastAuthErrorTime (notify_unauthorized now0 w) = Some now0"
    and "unauthorized_listener w \<Longrightarrow> sessionKey (notify_unauthorized now0 w) = None"
    and "\<not> unauthorized_listener w \<Longrightarrow> sessionKey (notify_unauthorized now0 w) = sessionKey w"
  using assms
  by (simp_all add: notify_unauthorized_def dispatch_unauthorized_def handleUnauthorized_def Let_def)

lemma unauthorized_debounced:
  assumes "t0 - (case lastAuthErrorTime w of None \<Rightarrow> 0 | Some t \<Rightarrow> t) > 2000"
    and "\<forall>t \<in> set ts. t - t0 \<le> 2000"
  shows "dispatched (foldl (\<lambda>w t. notify_unauthorized t w) w (t0 # ts)) = Suc (dispatched w)"
proof -
  have "foldl (\<lambda>w t. notify_unauthorized t w) (notify_unauthorized t0 w) ts = notify_unauthorized t0 w"
    by (rule notify_unauthorized_quiet [OF notify_unauthorized_fires(2) [OF assms(1)] assms(2)])
  then show ?thesis
    by (simp add: notify_unauthorized_fires(1) [OF assms(1)])
qed

text \<open>
  C4 at a page that is loaded with a key in the session storage: the login guard
  returns before it registers its listener, so the 401 raises one signal and the key
  stays in the session storage.
\<close>

theorem unauthorized_signal_without_listener:
  "unauthorized_listener (guard_mount False (fresh_browser (Some ''secret''))) = False \<and>
   dispatched (snd (request (web_runtime (Inr (error_response 401 ''''))) COMMAND_MAPPING
       ''list_accounts'' None (guard_mount False (fresh_browser (Some ''secret''))))) = 1 \<and>
   sessionKey (snd (request (web_runtime (Inr (error_response 401 ''''))) COMMAND_MAPPING
       ''list_accounts'' None (guard_mount False (fresh_browser (Some ''secret'')))))
     = Some ''secret''"
  by (simp add: request_def lookup_mapping_def perform_fetch_def lookup_list_accounts
      web_runtime_def error_response_def classify_response_def error_property_def
      get_property_def Let_def guard_mount_def fresh_browser_def truthy_key_def
      notify_unauthorized_def dispatch_unauthorized_def)

end
